theory Spec2Isabelle
  imports Main "HOL-Library.Word" "HOL-Library.Signed_Division"
begin

section \<open>Data model\<close>

text \<open>
  The link layer works on \<^verbatim>\<open>byte_t\<close> (\<^verbatim>\<open>unsigned char\<close>) arrays that it reaches through
  pointers. A byte is an 8-bit word, so that the additions of the checksum wrap as they
  do in C. An array seen through a pointer is a function from the offset to the byte
  stored there: \<^verbatim>\<open>p[i]\<close> is \<open>p i\<close>, and \<^verbatim>\<open>p[i] = v\<close> is \<open>p(i := v)\<close>. Offsets are \<open>int\<close>,
  as the C index expressions are, so an access before the start of an array (a negative
  offset) or past the size the caller had in mind is an access like any other: the model
  shows which cell it touches. C \<^verbatim>\<open>int\<close> values are \<open>int\<close>; none of the counters and sizes
  of this program comes near the range of a machine integer, and the conversions to
  \<^verbatim>\<open>byte_t\<close> are written out with \<open>word_of_int\<close>. C's \<^verbatim>\<open>/\<close> and \<^verbatim>\<open>%\<close> on \<^verbatim>\<open>int\<close> round towards
  zero: they are \<open>sdiv\<close> and \<open>smod\<close>. The remainder \<^verbatim>\<open>checksum % MODULO\<close> of the checksum is
  taken of a byte value, which is not negative, and is written with \<open>mod\<close>.
\<close>

type_synonym byte_t = "8 word"
type_synonym buffer = "int \<Rightarrow> byte_t"

text \<open>The first \<open>n\<close> bytes of an array, and an array holding the bytes of a list
  (zero elsewhere, as a static C array is before it is written).\<close>

definition bytes_of :: "buffer \<Rightarrow> int \<Rightarrow> byte_t list" where
  "bytes_of buf n = map (\<lambda>k. buf (int k)) [0..<nat n]"

definition array_of :: "byte_t list \<Rightarrow> buffer" where
  "array_of xs = (\<lambda>i. if 0 \<le> i \<and> i < int (length xs) then xs ! nat i else 0)"

text \<open>Storing a run of bytes at an offset: what a read from the port does to the array
  it is given.\<close>

definition store :: "buffer \<Rightarrow> int \<Rightarrow> byte_t list \<Rightarrow> buffer" where
  "store buf off bs =
     (\<lambda>i. if off \<le> i \<and> i < off + int (length bs) then bs ! nat (i - off) else buf i)"

subsection \<open>Constants of linklayer.h and checksum.h\<close>

definition MAX_BLK :: int where "MAX_BLK = 200"
definition MOD_SEQNUM :: int where "MOD_SEQNUM = 16"
definition STARTBYTE :: byte_t where "STARTBYTE = 212"
definition SEQNUMPOS :: int where "SEQNUMPOS = 2"
definition FRAMENUMBERPOS :: int where "FRAMENUMBERPOS = 1"
definition HEADERSIZE :: int where "HEADERSIZE = 3"
definition TRAILERSIZE :: int where "TRAILERSIZE = 1"
definition FRAMEGOOD :: int where "FRAMEGOOD = 1"
definition FRAMEBAD :: int where "FRAMEBAD = 0"
definition POSACK :: int where "POSACK = 1"
definition NEGACK :: int where "NEGACK = 26"
definition ACK_SIZE :: int where "ACK_SIZE = 5"
definition TX_WAIT :: int where "TX_WAIT = 4"
definition RX_WAIT :: int where "RX_WAIT = 6"
definition MAX_TRIES :: int where "MAX_TRIES = 5"
definition BIT_RATE :: int where "BIT_RATE = 4800"
definition TRUE :: int where "TRUE = 1"
definition FALSE :: int where "FALSE = 0"
definition SUCCESS :: int where "SUCCESS = 0"
definition BADUSE :: int where "BADUSE = - 9"
definition FAILURE :: int where "FAILURE = - 12"
definition GIVEUP :: int where "GIVEUP = - 15"
definition MODULO :: int where "MODULO = 250"

lemmas ll_consts =
  MAX_BLK_def MOD_SEQNUM_def STARTBYTE_def SEQNUMPOS_def FRAMENUMBERPOS_def HEADERSIZE_def
  TRAILERSIZE_def FRAMEGOOD_def FRAMEBAD_def POSACK_def NEGACK_def ACK_SIZE_def TX_WAIT_def
  RX_WAIT_def MAX_TRIES_def BIT_RATE_def TRUE_def FALSE_def SUCCESS_def BADUSE_def
  FAILURE_def GIVEUP_def MODULO_def

section \<open>Checksum unit (checksum.c)\<close>

text \<open>
  Both checksum functions run the same loop, \<^verbatim>\<open>for (i = lo; i < hi; i++) checksum += a[i];\<close>
  on a \<^verbatim>\<open>byte_t\<close> accumulator: each addition is reduced modulo 256.
\<close>

function add_bytes :: "buffer \<Rightarrow> int \<Rightarrow> int \<Rightarrow> byte_t \<Rightarrow> byte_t" where
  "add_bytes a i hi checksum =
     (if i < hi then add_bytes a (i + 1) hi (checksum + a i) else checksum)"
  by pat_completeness auto
termination
  by (relation "measure (\<lambda>(a, i, hi, checksum). nat (hi - i))") auto

declare add_bytes.simps [simp del]

text \<open>
  \<^verbatim>\<open>makeCHKSUM\<close>: the accumulator starts at \<^verbatim>\<open>frameSize + seqnum\<close> (an \<^verbatim>\<open>int\<close> sum stored
  into a byte), the data bytes are added, and \<^verbatim>\<open>checksum % MODULO\<close> is returned as a byte.
\<close>

definition makeCHKSUM :: "buffer \<Rightarrow> int \<Rightarrow> byte_t \<Rightarrow> byte_t \<Rightarrow> byte_t" where
  "makeCHKSUM dataTX nDataTX frameSize seqnum =
     (let checksum = (word_of_int (uint frameSize + uint seqnum) :: byte_t);
          checksum = add_bytes dataTX 0 nDataTX checksum
      in word_of_int (uint checksum mod MODULO))"

text \<open>
  \<^verbatim>\<open>inspectCHKSUM\<close>: sums the bytes at offsets 1 .. sizeFrame - TRAILERSIZE - 1 and compares
  the result modulo 250 with the byte at offset sizeFrame - TRAILERSIZE. There is no test
  on \<^verbatim>\<open>sizeFrame\<close> in the source.
\<close>

definition inspectCHKSUM :: "buffer \<Rightarrow> int \<Rightarrow> int" where
  "inspectCHKSUM frameRX sizeFrame =
     (let checksum = add_bytes frameRX 1 (sizeFrame - TRAILERSIZE) 0
      in if uint (frameRX (sizeFrame - TRAILERSIZE)) \<noteq> uint checksum mod MODULO
         then FRAMEBAD else FRAMEGOOD)"

section \<open>The port and the clock\<close>

text \<open>
  The physical layer (physical_real.c) wraps the serial port of the operating system:
  \<^verbatim>\<open>PHY_send\<close> is a \<^verbatim>\<open>WriteFile\<close>, \<^verbatim>\<open>PHY_get\<close> a \<^verbatim>\<open>ReadFile\<close> with the time limits that
  \<^verbatim>\<open>PHY_open\<close> configured, and the timer functions read \<^verbatim>\<open>clock()\<close>. The world outside the
  program is a record: the state of the port handle, the bytes that the line delivers to
  this end (in order of arrival), the blocks written to the line so far, and the reading
  of the clock in ticks.

  A read finds the bytes that have come in. When fewer than the number asked for are
  there, the read hands over what there is and returns when its time limit has run out:
  \<^verbatim>\<open>ReadTotalTimeoutConstant + ReadTotalTimeoutMultiplier * nBytesToGet\<close> milliseconds,
  with the constant 1000 that \<^verbatim>\<open>LL_connect\<close> passes and the multiplier that \<^verbatim>\<open>PHY_open\<close>
  computes from the bit rate. \<^verbatim>\<open>CLOCKS_PER_SEC\<close> is 1000 on the platform the physical
  layer is written for, so a tick is a millisecond. (The limit of 50 ms on the gap between
  two bytes can only end a read sooner; the length of the wait matters to the first loop
  of \<^verbatim>\<open>getFrame\<close> only in that it is positive.) A read that finds all the bytes it asks for
  takes no time in the model. The line delivers the bytes of \<open>rx_pending\<close> and nothing after
  them. The simulated bit errors of \<^verbatim>\<open>PHY_get\<close> are switched off by \<^verbatim>\<open>PROB_ERR 0\<close>. A write
  that the port accepts is complete. Printing is not modelled.
\<close>

datatype port_status = PortInvalid | PortFaulty | PortReady

record world =
  port :: port_status
  rx_pending :: "byte_t list"
  tx_log :: "byte_t list list"
  now :: int

definition CLOCKS_PER_SEC :: int where "CLOCKS_PER_SEC = 1000"
definition RX_TIME_CONST :: int where "RX_TIME_CONST = 1000"

definition timeMult :: int where
  "timeMult = 1 + 1000 * (8 + 2 + 0) sdiv BIT_RATE"

text \<open>\<^verbatim>\<open>PHY_send\<close>: -9 when the handle is invalid, -5 when the write fails, else the number
  of bytes written.\<close>

definition PHY_send :: "world \<Rightarrow> buffer \<Rightarrow> int \<Rightarrow> int \<times> world" where
  "PHY_send w dataTX nBytesToSend =
     (case port w of
        PortInvalid \<Rightarrow> (- 9, w)
      | PortFaulty \<Rightarrow> (- 5, w)
      | PortReady \<Rightarrow>
          (nBytesToSend, w\<lparr>tx_log := tx_log w @ [bytes_of dataTX nBytesToSend]\<rparr>))"

text \<open>\<^verbatim>\<open>PHY_get(dataRX + off, nBytesToGet)\<close>: -9 when the handle is invalid, 0 when no
  byte is asked for, -4 when the read fails, else the bytes received are stored from
  offset \<open>off\<close> on and their number is returned.\<close>

definition PHY_get :: "world \<Rightarrow> buffer \<Rightarrow> int \<Rightarrow> int \<Rightarrow> int \<times> buffer \<times> world" where
  "PHY_get w dataRX off nBytesToGet =
     (if port w = PortInvalid then (- 9, dataRX, w)
      else if nBytesToGet \<le> 0 then (0, dataRX, w)
      else if port w = PortFaulty then (- 4, dataRX, w)
      else
        let got = take (nat nBytesToGet) (rx_pending w);
            nBytesGot = int (length got);
            waited = (if nBytesGot < nBytesToGet
                      then RX_TIME_CONST + timeMult * nBytesToGet else 0)
        in (nBytesGot, store dataRX off got,
            w\<lparr>rx_pending := drop (nat nBytesToGet) (rx_pending w), now := now w + waited\<rparr>))"

text \<open>The timer: \<^verbatim>\<open>timeSet\<close> and \<^verbatim>\<open>timeUp\<close>. The two time limits the program uses,
  \<^verbatim>\<open>2 * TX_WAIT\<close> and \<^verbatim>\<open>RX_WAIT\<close>, are whole numbers of seconds.\<close>

definition timeSet :: "int \<Rightarrow> world \<Rightarrow> int" where
  "timeSet limit w = now w + limit * CLOCKS_PER_SEC"

definition timeUp :: "int \<Rightarrow> world \<Rightarrow> int" where
  "timeUp timeLimit w = (if now w < timeLimit then FALSE else TRUE)"

definition "next" :: "int \<Rightarrow> int" where
  "next seq = (seq + 1) smod MOD_SEQNUM"

section \<open>Frame codec\<close>

text \<open>The copying loop \<^verbatim>\<open>for (i = 0; i < n; i++) dst[doff + i] = src[soff + i];\<close> of
  \<^verbatim>\<open>buildDataFrame\<close> and \<^verbatim>\<open>processFrame\<close>.\<close>

function copy_bytes :: "buffer \<Rightarrow> int \<Rightarrow> buffer \<Rightarrow> int \<Rightarrow> int \<Rightarrow> int \<Rightarrow> buffer" where
  "copy_bytes dst doff src soff i n =
     (if i < n then copy_bytes (dst(doff + i := src (soff + i))) doff src soff (i + 1) n
      else dst)"
  by pat_completeness auto
termination
  by (relation "measure (\<lambda>(dst, doff, src, soff, i, n). nat (n - i))") auto

declare copy_bytes.simps [simp del]

text \<open>\<^verbatim>\<open>buildDataFrame\<close> returns the size of the frame; the model returns the frame array
  with it. \<^verbatim>\<open>(byte_t)nDataTX + 2\<close> is an \<^verbatim>\<open>int\<close> that the assignment to the byte
  \<^verbatim>\<open>framesize\<close> reduces modulo 256.\<close>

definition buildDataFrame :: "buffer \<Rightarrow> buffer \<Rightarrow> int \<Rightarrow> int \<Rightarrow> int \<times> buffer" where
  "buildDataFrame frameTX dataTX nDataTX seqNumTX =
     (let framesize = (word_of_int (uint (word_of_int nDataTX :: byte_t) + 2) :: byte_t);
          frameTX = frameTX(0 := STARTBYTE);
          frameTX = frameTX(FRAMENUMBERPOS := framesize);
          frameTX = frameTX(SEQNUMPOS := word_of_int seqNumTX);
          frameTX = copy_bytes frameTX HEADERSIZE dataTX 0 0 nDataTX;
          frameTX = frameTX(HEADERSIZE + nDataTX :=
                      makeCHKSUM dataTX nDataTX framesize (word_of_int seqNumTX))
      in (HEADERSIZE + nDataTX + TRAILERSIZE, frameTX))"

text \<open>\<^verbatim>\<open>checkFrame\<close>: the status set by the test of the start marker is overwritten by the
  result of \<^verbatim>\<open>inspectCHKSUM\<close>, as in the source.\<close>

definition checkFrame :: "buffer \<Rightarrow> int \<Rightarrow> int" where
  "checkFrame frameRX sizeFrame =
     (let frameStatus = FRAMEGOOD;
          frameStatus = (if frameRX 0 \<noteq> STARTBYTE then FRAMEBAD else frameStatus);
          frameStatus = inspectCHKSUM frameRX sizeFrame
      in frameStatus)"

text \<open>\<^verbatim>\<open>processFrame\<close> returns the number of data bytes; the model returns the data array
  and the sequence number (the \<^verbatim>\<open>*seqNumRX\<close> output) with it.\<close>

definition processFrame :: "buffer \<Rightarrow> int \<Rightarrow> buffer \<Rightarrow> int \<Rightarrow> int \<times> buffer \<times> int" where
  "processFrame frameRX sizeFrame dataRX maxData =
     (let seqNumRX = uint (frameRX SEQNUMPOS);
          nRXdata = sizeFrame - HEADERSIZE - TRAILERSIZE;
          nRXdata = (if nRXdata > maxData then maxData else nRXdata);
          dataRX = copy_bytes dataRX 0 frameRX HEADERSIZE 0 nRXdata
      in (nRXdata, dataRX, seqNumRX))"

section \<open>Connection state\<close>

text \<open>
  The file-level \<^verbatim>\<open>static\<close> variables of the link layer, and the \<^verbatim>\<open>static\<close> arrays that its
  functions keep from one call to the next (\<^verbatim>\<open>frameTX\<close> of \<^verbatim>\<open>LL_send_basic\<close>, \<^verbatim>\<open>frameTX\<close> and
  \<^verbatim>\<open>frameAck\<close> of \<^verbatim>\<open>LL_send_LLC\<close>, \<^verbatim>\<open>frameRX\<close> of \<^verbatim>\<open>LL_receive_LLC\<close>). The \<^verbatim>\<open>debug\<close> flag only
  selects what is printed and is left out. \<^verbatim>\<open>LL_discon\<close>, \<^verbatim>\<open>LL_receive_basic\<close> and
  \<^verbatim>\<open>LL_getOptBlockSize\<close> are not modelled.
\<close>

record ll_state =
  seqNumTX :: int
  lastSeqRX :: int
  connected :: int
  framesSent :: int
  acksSent :: int
  naksSent :: int
  acksRX :: int
  naksRX :: int
  badFrames :: int
  goodFrames :: int
  timeouts :: int
  timerRX :: int
  connectTime :: int
  send_basic_frameTX :: buffer
  send_LLC_frameTX :: buffer
  send_LLC_frameAck :: buffer
  receive_LLC_frameRX :: buffer

text \<open>The state of a program that has just started: C sets static storage to zero.\<close>

definition initial_state :: ll_state where
  "initial_state =
     \<lparr>seqNumTX = 0, lastSeqRX = 0, connected = FALSE, framesSent = 0, acksSent = 0,
      naksSent = 0, acksRX = 0, naksRX = 0, badFrames = 0, goodFrames = 0, timeouts = 0,
      timerRX = 0, connectTime = 0, send_basic_frameTX = (\<lambda>i. 0),
      send_LLC_frameTX = (\<lambda>i. 0), send_LLC_frameAck = (\<lambda>i. 0),
      receive_LLC_frameRX = (\<lambda>i. 0)\<rparr>"

text \<open>\<^verbatim>\<open>PHY_open\<close>: the checks of its arguments, then the port is opened. Of the failures of
  the operating system only the first is modelled: the port cannot be opened.\<close>

definition PHY_open :: "world \<Rightarrow> int \<Rightarrow> int \<Rightarrow> int \<Rightarrow> int \<Rightarrow> int" where
  "PHY_open w portNum bitRate nDataBits parity =
     (let bitRatio = bitRate sdiv 1200 in
      if bitRate \<noteq> bitRatio * 1200 then 3
      else if bitRatio \<notin> {1, 2, 4, 8, 16, 32} then 3
      else if nDataBits \<noteq> 7 \<and> nDataBits \<noteq> 8 then 3
      else if parity < 0 \<or> parity > 2 then 3
      else if port w = PortInvalid then 1
      else 0)"

definition LL_connect :: "int \<Rightarrow> ll_state \<Rightarrow> world \<Rightarrow> int \<times> ll_state" where
  "LL_connect portNum s w =
     (let status = PHY_open w portNum BIT_RATE 8 0 in
      if status = SUCCESS
      then (SUCCESS,
            s\<lparr>connected := TRUE, seqNumTX := 0, lastSeqRX := 2 * MOD_SEQNUM - 1,
              framesSent := 0, acksSent := 0, naksSent := 0, acksRX := 0, naksRX := 0,
              badFrames := 0, goodFrames := 0, timeouts := 0, connectTime := now w\<rparr>)
      else (- status, s\<lparr>connected := FALSE\<rparr>))"

section \<open>Receiving a frame: getFrame\<close>

text \<open>
  The first loop of \<^verbatim>\<open>getFrame\<close> asks the port for one byte at a time until that byte is the
  start marker or the time limit has passed. It ends with \<open>Some r\<close> when \<^verbatim>\<open>PHY_get\<close> fails
  with the code \<open>r\<close> (the early \<^verbatim>\<open>return bytesGot\<close>) and with \<open>None\<close> when the loop is left
  through its condition. Every pass takes a byte from the line or lets a read run into its
  time limit, so the loop ends.
\<close>

function getFrame_seek :: "buffer \<Rightarrow> int \<Rightarrow> int \<Rightarrow> world \<Rightarrow> int option \<times> buffer \<times> int \<times> world" where
  "getFrame_seek frameRX bytesRX timer w =
     (let got = PHY_get w frameRX 0 1;
          bytesGot = fst got; frameRX' = fst (snd got); w' = snd (snd got)
      in if bytesGot < 0 then (Some bytesGot, frameRX', bytesRX, w')
         else if (bytesGot < 1 \<or> frameRX' 0 \<noteq> STARTBYTE) \<and> timeUp timer w' = FALSE
              then getFrame_seek frameRX' (bytesRX + bytesGot) timer w'
              else (None, frameRX', bytesRX + bytesGot, w'))"
  by pat_completeness auto
termination
proof (relation "measure (\<lambda>(frameRX, bytesRX, timer, w).
                   length (rx_pending w) + nat (timer - now w))")
  show "wf (measure (\<lambda>(frameRX, bytesRX, timer, w).
              length (rx_pending w) + nat (timer - now w)))"
    by simp
next
  fix frameRX :: buffer and bytesRX timer :: int and w :: world
    and got bytesGot frameRX' w'
  assume got: "got = PHY_get w frameRX 0 1" and b: "bytesGot = fst got"
    and w': "w' = snd (snd got)" and "frameRX' = fst (snd got)"
    and nonneg: "\<not> bytesGot < 0"
    and again: "(bytesGot < 1 \<or> frameRX' 0 \<noteq> STARTBYTE) \<and> timeUp timer w' = FALSE"
  from nonneg got b have ready: "port w = PortReady"
    by (cases "port w") (simp_all add: PHY_get_def)
  show "((frameRX', bytesRX + bytesGot, timer, w'), (frameRX, bytesRX, timer, w))
        \<in> measure (\<lambda>(frameRX, bytesRX, timer, w).
                      length (rx_pending w) + nat (timer - now w))"
  proof (cases "rx_pending w")
    case Nil
    with ready got w' have "now w' = now w + 1003" "rx_pending w' = []"
      by (simp_all add: PHY_get_def Let_def RX_TIME_CONST_def timeMult_def BIT_RATE_def
          signed_divide_int_def)
    moreover from again have "now w' < timer"
      by (simp add: timeUp_def TRUE_def FALSE_def split: if_splits)
    ultimately show ?thesis using Nil by simp
  next
    case (Cons x xs)
    with ready got w' have "now w' = now w" "rx_pending w' = xs"
      by (simp_all add: PHY_get_def Let_def)
    then show ?thesis using Cons by simp
  qed
qed

declare getFrame_seek.simps [simp del]

text \<open>\<^verbatim>\<open>getFrame\<close> returns the number of bytes of the frame, 0 or a negative code; the model
  returns the frame array, the state (for \<^verbatim>\<open>timerRX\<close>) and the world with it.\<close>

definition getFrame ::
  "buffer \<Rightarrow> int \<Rightarrow> int \<Rightarrow> ll_state \<Rightarrow> world \<Rightarrow> int \<times> buffer \<times> ll_state \<times> world" where
  "getFrame frameRX maxSize timeLimit s w =
     (let s = s\<lparr>timerRX := timeSet timeLimit w\<rparr> in
      case getFrame_seek frameRX 0 (timerRX s) w of
        (Some bytesGot, frameRX, bytesRX, w) \<Rightarrow> (bytesGot, frameRX, s, w)
      | (None, frameRX, bytesRX, w) \<Rightarrow>
          if timeUp (timerRX s) w \<noteq> FALSE then (0, frameRX, s, w)
          else
            let bytesRX = 1;
                got = PHY_get w frameRX bytesRX 1;
                bytesGot = fst got; frameRX = fst (snd got); w = snd (snd got)
            in if bytesGot < 0 then (bytesGot, frameRX, s, w)
               else
                 let bytesRX = bytesRX + bytesGot;
                     framesize = frameRX FRAMENUMBERPOS;
                     got = PHY_get w frameRX bytesRX (uint framesize);
                     bytesGot = fst got; frameRX = fst (snd got); w = snd (snd got)
                 in if bytesGot < 0 then (bytesGot, frameRX, s, w)
                    else
                      let bytesRX = bytesRX + bytesGot
                      in if bytesRX \<ge> maxSize then (0, frameRX, s, w)
                         else (bytesRX, frameRX, s, w))"

section \<open>Acknowledgements: sendAck\<close>

text \<open>
  \<^verbatim>\<open>sendAck\<close> fills a local array and sends its first \<^verbatim>\<open>ACK_SIZE\<close> bytes. The size byte it
  writes is \<^verbatim>\<open>ACK_SIZE - 1\<close>. The checksum is made over the one status byte, which
  \<^verbatim>\<open>dataptr\<close> points to. \<open>ackFrame_of\<close> is the array as it is when \<^verbatim>\<open>PHY_send\<close> is called.
\<close>

definition ackFrame_of :: "int \<Rightarrow> int \<Rightarrow> buffer" where
  "ackFrame_of type seqNum =
     (let ackFrame = (\<lambda>i. 0) :: buffer;
          ackFrame = ackFrame(0 := STARTBYTE);
          ackFrame = ackFrame(FRAMENUMBERPOS := word_of_int (ACK_SIZE - 1));
          ackFrame = ackFrame(SEQNUMPOS := word_of_int seqNum);
          ackFrame = (if type = POSACK
                      then ackFrame(SEQNUMPOS + 1 := word_of_int FRAMEGOOD)
                      else ackFrame(SEQNUMPOS + 1 := word_of_int FRAMEBAD));
          dataptr = (\<lambda>i. ackFrame (SEQNUMPOS + 1 + i));
          ackFrame = ackFrame(ACK_SIZE - 1 :=
                       makeCHKSUM dataptr 1 (word_of_int (ACK_SIZE - 1)) (word_of_int seqNum))
      in ackFrame)"

definition sendAck :: "int \<Rightarrow> int \<Rightarrow> ll_state \<Rightarrow> world \<Rightarrow> int \<times> ll_state \<times> world" where
  "sendAck type seqNum s w =
     (let ackFrame = ackFrame_of type seqNum;
          sizeAck = ACK_SIZE;
          sent = PHY_send w ackFrame sizeAck;
          retVal = fst sent; w = snd sent
      in if retVal \<noteq> sizeAck then (FAILURE, s, w)
         else (SUCCESS,
               (if type = POSACK then s\<lparr>acksSent := acksSent s + 1\<rparr>
                else if type = NEGACK then s\<lparr>naksSent := naksSent s + 1\<rparr>
                else s), w))"

section \<open>Sending\<close>

definition LL_send_basic :: "buffer \<Rightarrow> int \<Rightarrow> ll_state \<Rightarrow> world \<Rightarrow> int \<times> ll_state \<times> world" where
  "LL_send_basic dataTX nTXdata s w =
     (if connected s = FALSE then (BADUSE, s, w)
      else if nTXdata > MAX_BLK then (BADUSE, s, w)
      else
        let built = buildDataFrame (send_basic_frameTX s) dataTX nTXdata (seqNumTX s);
            sizeTXframe = fst built;
            s = s\<lparr>send_basic_frameTX := snd built\<rparr>;
            sent = PHY_send w (send_basic_frameTX s) sizeTXframe;
            numSent = fst sent; w = snd sent
        in if numSent \<noteq> sizeTXframe then (FAILURE, s, w)
           else (SUCCESS,
                 s\<lparr>framesSent := framesSent s + 1, seqNumTX := next (seqNumTX s)\<rparr>, w))"

text \<open>
  One pass through the body of the \<^verbatim>\<open>do ... while\<close> loop of \<^verbatim>\<open>LL_send_LLC\<close>: send the frame,
  wait for a response, look at it. The result is \<open>Some FAILURE\<close> for the two early
  \<^verbatim>\<open>return FAILURE\<close>, else \<open>None\<close>, with the \<^verbatim>\<open>success\<close> flag.
\<close>

definition LL_send_LLC_attempt ::
  "int \<Rightarrow> ll_state \<Rightarrow> world \<Rightarrow> int option \<times> int \<times> ll_state \<times> world" where
  "LL_send_LLC_attempt sizeTXframe s w =
     (let sent = PHY_send w (send_LLC_frameTX s) sizeTXframe;
          numSent = fst sent; w = snd sent
      in if numSent \<noteq> sizeTXframe then (Some FAILURE, FALSE, s, w)
         else
           let s = s\<lparr>framesSent := framesSent s + 1\<rparr>;
               got = getFrame (send_LLC_frameAck s) (2 * ACK_SIZE) (2 * TX_WAIT) s w;
               sizeAck = fst got;
               s = (fst (snd (snd got)))\<lparr>send_LLC_frameAck := fst (snd got)\<rparr>;
               w = snd (snd (snd got));
               frameAck = send_LLC_frameAck s
           in if sizeAck < 0 then (Some FAILURE, FALSE, s, w)
              else if sizeAck = 0 then (None, FALSE, s\<lparr>timeouts := timeouts s + 1\<rparr>, w)
              else if checkFrame frameAck sizeAck = FRAMEGOOD
                then
                  let s = s\<lparr>goodFrames := goodFrames s + 1\<rparr>;
                      seqAck = uint (frameAck SEQNUMPOS)
                  in if uint (frameAck (SEQNUMPOS + 1)) = POSACK \<and> seqAck = seqNumTX s
                     then (None, TRUE, s\<lparr>acksRX := acksRX s + 1\<rparr>, w)
                     else (None, FALSE, s\<lparr>naksRX := naksRX s + 1\<rparr>, w)
                else (None, FALSE, s\<lparr>badFrames := badFrames s + 1\<rparr>, w))"

function LL_send_LLC_loop ::
  "int \<Rightarrow> int \<Rightarrow> ll_state \<Rightarrow> world \<Rightarrow> int option \<times> int \<times> ll_state \<times> world" where
  "LL_send_LLC_loop sizeTXframe attempts s w =
     (let r = LL_send_LLC_attempt sizeTXframe s w;
          attempts = attempts + 1
      in if fst r = None \<and> fst (snd r) = FALSE \<and> attempts < MAX_TRIES
         then LL_send_LLC_loop sizeTXframe attempts (fst (snd (snd r))) (snd (snd (snd r)))
         else r)"
  by pat_completeness auto
termination
  by (relation "measure (\<lambda>(sizeTXframe, attempts, s, w). nat (MAX_TRIES - attempts))") auto

declare LL_send_LLC_loop.simps [simp del]

definition LL_send_LLC :: "buffer \<Rightarrow> int \<Rightarrow> ll_state \<Rightarrow> world \<Rightarrow> int \<times> ll_state \<times> world" where
  "LL_send_LLC dataTX nTXdata s w =
     (if connected s = FALSE then (BADUSE, s, w)
      else if nTXdata > MAX_BLK then (BADUSE, s, w)
      else
        let built = buildDataFrame (send_LLC_frameTX s) dataTX nTXdata (seqNumTX s);
            sizeTXframe = fst built;
            s = s\<lparr>send_LLC_frameTX := snd built\<rparr>
        in case LL_send_LLC_loop sizeTXframe 0 s w of
             (Some code, success, s, w) \<Rightarrow> (code, s, w)
           | (None, success, s, w) \<Rightarrow>
               if success = TRUE then (SUCCESS, s\<lparr>seqNumTX := next (seqNumTX s)\<rparr>, w)
               else (GIVEUP, s, w))"

section \<open>Receiving\<close>

text \<open>
  One pass through the body of the loop of \<^verbatim>\<open>LL_receive_LLC\<close>. The locals that live across
  passes are the caller's data array \<^verbatim>\<open>dataRX\<close>, \<^verbatim>\<open>nRXdata\<close> and \<^verbatim>\<open>seqNumRX\<close>. The value that
  \<^verbatim>\<open>sendAck\<close> returns is not looked at, as in the source. \<^verbatim>\<open>processFrame\<close> copies the data
  into \<^verbatim>\<open>dataRX\<close> before the sequence number is compared.
\<close>

type_synonym rx_locals = "buffer \<times> int \<times> int"

definition LL_receive_LLC_attempt ::
  "int \<Rightarrow> int \<Rightarrow> rx_locals \<Rightarrow> ll_state \<Rightarrow> world
     \<Rightarrow> int option \<times> int \<times> rx_locals \<times> ll_state \<times> world" where
  "LL_receive_LLC_attempt expected maxData locals s w =
     (let dataRX = fst locals; nRXdata = fst (snd locals); seqNumRX = snd (snd locals);
          got = getFrame (receive_LLC_frameRX s) (3 * MAX_BLK) RX_WAIT s w;
          sizeRXframe = fst got;
          s = (fst (snd (snd got)))\<lparr>receive_LLC_frameRX := fst (snd got)\<rparr>;
          w = snd (snd (snd got));
          frameRX = receive_LLC_frameRX s
      in if sizeRXframe < 0 then (Some FAILURE, FALSE, locals, s, w)
         else if sizeRXframe = 0
           then (None, FALSE, locals, s\<lparr>timeouts := timeouts s + 1\<rparr>, w)
         else if checkFrame frameRX sizeRXframe = FRAMEBAD
           then
             let s = s\<lparr>badFrames := badFrames s + 1\<rparr>;
                 ack = sendAck NEGACK seqNumRX s w
             in (None, FALSE, locals, fst (snd ack), snd (snd ack))
         else
           let s = s\<lparr>goodFrames := goodFrames s + 1\<rparr>;
               processed = processFrame frameRX sizeRXframe dataRX maxData;
               nRXdata = fst processed; dataRX = fst (snd processed);
               seqNumRX = snd (snd processed);
               locals = (dataRX, nRXdata, seqNumRX)
           in if seqNumRX = expected
              then
                let s = s\<lparr>lastSeqRX := seqNumRX\<rparr>;
                    ack = sendAck POSACK seqNumRX s w
                in (None, TRUE, locals, fst (snd ack), snd (snd ack))
              else if seqNumRX = lastSeqRX s
              then
                let ack = sendAck NEGACK seqNumRX s w
                in (None, FALSE, locals, fst (snd ack), snd (snd ack))
              else
                let ack = sendAck NEGACK seqNumRX s w
                in (None, FALSE, locals, fst (snd ack), snd (snd ack)))"

function LL_receive_LLC_loop ::
  "int \<Rightarrow> int \<Rightarrow> int \<Rightarrow> rx_locals \<Rightarrow> ll_state \<Rightarrow> world
     \<Rightarrow> int option \<times> int \<times> rx_locals \<times> ll_state \<times> world" where
  "LL_receive_LLC_loop expected maxData attempts locals s w =
     (let r = LL_receive_LLC_attempt expected maxData locals s w;
          attempts = attempts + 1
      in if fst r = None \<and> fst (snd r) = FALSE \<and> attempts < MAX_TRIES
         then LL_receive_LLC_loop expected maxData attempts
                (fst (snd (snd r))) (fst (snd (snd (snd r)))) (snd (snd (snd (snd r))))
         else r)"
  by pat_completeness auto
termination
  by (relation "measure (\<lambda>(expected, maxData, attempts, locals, s, w).
                   nat (MAX_TRIES - attempts))") auto

declare LL_receive_LLC_loop.simps [simp del]

text \<open>\<^verbatim>\<open>LL_receive_LLC\<close> returns the size of the data block or a negative code; the model
  returns the caller's data array with it.\<close>

definition LL_receive_LLC ::
  "buffer \<Rightarrow> int \<Rightarrow> ll_state \<Rightarrow> world \<Rightarrow> int \<times> buffer \<times> ll_state \<times> world" where
  "LL_receive_LLC dataRX maxData s w =
     (let expected = next (lastSeqRX s) in
      if connected s = FALSE then (BADUSE, dataRX, s, w)
      else
        case LL_receive_LLC_loop expected maxData 0 (dataRX, 0, 0) s w of
          (Some code, success, (dataRX, nRXdata, seqNumRX), s, w) \<Rightarrow> (code, dataRX, s, w)
        | (None, success, (dataRX, nRXdata, seqNumRX), s, w) \<Rightarrow>
            if success = TRUE then (nRXdata, dataRX, s, w) else (GIVEUP, dataRX, s, w))"

section \<open>The checksum\<close>

lemma uint_add_bytes:
  "uint (add_bytes a i hi c) = (uint c + (\<Sum>k = i..<hi. uint (a k))) mod 256"
proof (induction a i hi c rule: add_bytes.induct)
  case (1 a i hi checksum)
  show ?case
  proof (cases "i < hi")
    case True
    have split: "{i..<hi} = insert i {i + 1..<hi}" using True by auto
    have "(\<Sum>k = i..<hi. uint (a k)) = uint (a i) + (\<Sum>k = i + 1..<hi. uint (a k))"
      by (subst split) simp
    with True 1 show ?thesis
      by (subst add_bytes.simps) (simp add: uint_word_ariths mod_simps algebra_simps)
  next
    case False
    have "uint checksum < 256" using uint_lt2p [of checksum] by simp
    with False show ?thesis by (subst add_bytes.simps) simp
  qed
qed

text \<open>
  C6, as amended. The accumulator of \<^verbatim>\<open>makeCHKSUM\<close> is a byte, so the sum of the frame size,
  the sequence number and the \<open>n\<close> data bytes is reduced modulo 256 before the remainder
  modulo 250 is taken: the result is \<open>((frameSize + seqnum + sum of the data) mod 256) mod 250\<close>,
  with the sum taken over the integers.
\<close>

theorem makeCHKSUM_byte_sum:
  "uint (makeCHKSUM dataTX n frameSize seqnum) =
     ((uint frameSize + uint seqnum + (\<Sum>k = 0..<n. uint (dataTX k))) mod 256) mod 250"
proof -
  have "uint (word_of_int (uint frameSize + uint seqnum) :: byte_t) =
        (uint frameSize + uint seqnum) mod 256"
    by (simp add: uint_word_ariths)
  then show ?thesis
    by (simp add: makeCHKSUM_def Let_def uint_add_bytes MODULO_def uint_word_of_int mod_simps)
qed

text \<open>
  C6, as the claim states it, fails: for the one data byte 255, frame size 3 and sequence
  number 0 the sum is 258, whose remainder modulo 250 is 8, and \<^verbatim>\<open>makeCHKSUM\<close> returns 2.
\<close>

theorem makeCHKSUM_exact_sum_counterexample:
  "uint (makeCHKSUM (array_of [255]) 1 3 0) = 2 \<and>
   (uint (3 :: byte_t) + uint (0 :: byte_t) + sum_list (map uint [255 :: byte_t])) mod 250 = 8"
  by (simp add: makeCHKSUM_def add_bytes.simps array_of_def MODULO_def)

text \<open>
  C9, as amended. \<^verbatim>\<open>inspectCHKSUM\<close> has no test on the frame length. For a length of at
  most 1 its loop adds nothing, the one byte it reads is the byte at offset
  \<open>sizeFrame - 1\<close> (offset 0 for a length of 1, an offset before the array for a length
  of 0 or less), and the result is \<^verbatim>\<open>FRAMEGOOD\<close> when that byte is 0 and \<^verbatim>\<open>FRAMEBAD\<close> when it
  is not.
\<close>

theorem inspectCHKSUM_short_frame:
  "sizeFrame \<le> 1 \<Longrightarrow>
   inspectCHKSUM frameRX sizeFrame =
     (if frameRX (sizeFrame - 1) = 0 then FRAMEGOOD else FRAMEBAD)"
  by (simp add: inspectCHKSUM_def add_bytes.simps ll_consts Let_def unsigned_eq_0_iff)

theorem inspectCHKSUM_short_frame_witness:
  "(1 :: int) \<le> 1 \<and> inspectCHKSUM (array_of [212]) 1 = FRAMEBAD"
  using inspectCHKSUM_short_frame [of 1 "array_of [212]"] by (simp add: array_of_def)

text \<open>
  C9, as the claim states it, fails. A frame of length 1 whose byte is 0 is reported good.
  For the length 0 the result follows the byte at offset -1, which is outside the offsets
  0 .. sizeFrame - 1: two arrays that differ only there get different results.
\<close>

theorem inspectCHKSUM_bound_check_counterexample:
  "inspectCHKSUM (array_of [0]) 1 = FRAMEGOOD \<and>
   inspectCHKSUM ((array_of [])(- 1 := 0)) 0 = FRAMEGOOD \<and>
   inspectCHKSUM ((array_of [])(- 1 := 7)) 0 = FRAMEBAD"
  by (simp add: inspectCHKSUM_def add_bytes.simps array_of_def ll_consts)

section \<open>Building and checking frames\<close>

lemma copy_bytes_apply:
  "copy_bytes dst doff src soff i n k =
     (if doff + i \<le> k \<and> k < doff + n then src (soff + (k - doff)) else dst k)"
proof (induction dst doff src soff i n rule: copy_bytes.induct)
  case (1 dst doff src soff i n)
  show ?case
  proof (cases "i < n")
    case True
    have "copy_bytes dst doff src soff i n k =
          copy_bytes (dst(doff + i := src (soff + i))) doff src soff (i + 1) n k"
      using True by (subst copy_bytes.simps) simp
    also have "\<dots> = (if doff + (i + 1) \<le> k \<and> k < doff + n then src (soff + (k - doff))
                      else (dst(doff + i := src (soff + i))) k)"
      by (rule 1 [OF True])
    also have "\<dots> = (if doff + i \<le> k \<and> k < doff + n then src (soff + (k - doff)) else dst k)"
      using True by auto
    finally show ?thesis .
  next
    case False
    then show ?thesis by (subst copy_bytes.simps) auto
  qed
qed

lemma add_bytes_shift:
  "0 \<le> i \<Longrightarrow> (\<And>k. 0 \<le> k \<Longrightarrow> k < n \<Longrightarrow> f (off + k) = d k)
     \<Longrightarrow> add_bytes f (off + i) (off + n) c = add_bytes d i n c"
proof (induction d i n c rule: add_bytes.induct)
  case (1 d i n c)
  show ?case
  proof (cases "i < n")
    case True
    with 1 have "add_bytes f (off + (i + 1)) (off + n) (c + d i) = add_bytes d (i + 1) n (c + d i)"
      by simp
    moreover have "f (off + i) = d i" using 1(2,3) True by simp
    ultimately show ?thesis using True
      by (subst add_bytes.simps, subst (2) add_bytes.simps) (simp add: add.assoc)
  next
    case False
    then show ?thesis by (subst add_bytes.simps, subst (2) add_bytes.simps) simp
  qed
qed

lemma buildDataFrame_size: "fst (buildDataFrame frameTX dataTX n s) = n + 4"
  by (simp add: buildDataFrame_def Let_def ll_consts)

lemma buildDataFrame_apply:
  "0 \<le> n \<Longrightarrow> snd (buildDataFrame frameTX dataTX n s) k =
     (if k = 0 then STARTBYTE
      else if k = 1 then word_of_int n + 2
      else if k = 2 then word_of_int s
      else if 3 \<le> k \<and> k < 3 + n then dataTX (k - 3)
      else if k = 3 + n then makeCHKSUM dataTX n (word_of_int n + 2) (word_of_int s)
      else frameTX k)"
  by (simp add: buildDataFrame_def Let_def ll_consts copy_bytes_apply)

lemma makeCHKSUM_alt:
  "makeCHKSUM d n fs sq = word_of_int (uint (add_bytes d 0 n (fs + sq)) mod 250)"
  by (simp add: makeCHKSUM_def Let_def MODULO_def)

lemma inspectCHKSUM_built:
  assumes "0 \<le> n"
    and f1: "f 1 = fs" and f2: "f 2 = sq"
    and data: "\<And>k. 0 \<le> k \<Longrightarrow> k < n \<Longrightarrow> f (3 + k) = d k"
    and chk: "f (3 + n) = makeCHKSUM d n fs sq"
  shows "inspectCHKSUM f (n + 4) = FRAMEGOOD"
proof -
  have "add_bytes f 1 (n + 3) 0 = add_bytes f 2 (n + 3) fs"
    using assms(1) f1 by (subst add_bytes.simps) simp
  also have "\<dots> = add_bytes f 3 (n + 3) (fs + sq)"
    using assms(1) f2 by (subst add_bytes.simps) simp
  also have "\<dots> = add_bytes d 0 n (fs + sq)"
    using add_bytes_shift [of 0 n f 3 d "fs + sq"] data by (simp add: add.commute)
  finally have sum: "add_bytes f 1 (n + 3) 0 = add_bytes d 0 n (fs + sq)" .
  have "uint (add_bytes d 0 n (fs + sq)) mod 250 < 256"
    by (rule less_trans [of _ 250]) simp_all
  then have "uint (word_of_int (uint (add_bytes d 0 n (fs + sq)) mod 250) :: byte_t)
             = uint (add_bytes d 0 n (fs + sq)) mod 250"
    by (simp add: uint_word_of_int)
  with sum chk show ?thesis
    by (simp add: inspectCHKSUM_def Let_def ll_consts makeCHKSUM_alt add.commute)
qed

lemma checkFrame_built:
  assumes "0 \<le> n"
  shows "checkFrame (snd (buildDataFrame frameTX dataTX n s)) (n + 4) = FRAMEGOOD"
proof -
  let ?f = "snd (buildDataFrame frameTX dataTX n s)"
  have "inspectCHKSUM ?f (n + 4) = FRAMEGOOD"
    by (rule inspectCHKSUM_built
          [where d = dataTX and fs = "word_of_int n + 2" and sq = "word_of_int s"])
       (use assms in \<open>simp_all add: buildDataFrame_apply\<close>)
  then show ?thesis by (simp add: checkFrame_def Let_def)
qed

text \<open>
  C2. For every payload \<open>p\<close> of at most 253 bytes and every sequence number \<open>s\<close> from 0 to
  15, the frame that \<^verbatim>\<open>buildDataFrame(frame, p, len(p), s)\<close> builds has \<open>len(p) + 4\<close> bytes and
  \<^verbatim>\<open>checkFrame\<close> finds it good.
\<close>

theorem buildDataFrame_checkFrame_roundtrip:
  "length p \<le> 253 \<Longrightarrow> 0 \<le> s \<Longrightarrow> s \<le> 15 \<Longrightarrow>
   (case buildDataFrame frameTX (array_of p) (int (length p)) s of
      (sizeFrame, frame) \<Rightarrow>
        sizeFrame = int (length p) + 4 \<and> checkFrame frame sizeFrame = FRAMEGOOD)"
  using checkFrame_built [of "int (length p)" frameTX "array_of p" s]
  by (simp add: split_beta buildDataFrame_size)

theorem buildDataFrame_checkFrame_roundtrip_witness:
  "length [1, 2, 3 :: byte_t] \<le> 253 \<and> (0 :: int) \<le> 0 \<and> (0 :: int) \<le> 15 \<and>
   (case buildDataFrame (\<lambda>i. 0) (array_of [1, 2, 3]) (int (length [1, 2, 3 :: byte_t])) 0 of
      (sizeFrame, frame) \<Rightarrow>
        sizeFrame = int (length [1, 2, 3 :: byte_t]) + 4 \<and>
        checkFrame frame sizeFrame = FRAMEGOOD)"
  using buildDataFrame_checkFrame_roundtrip [of "[1, 2, 3]" 0 "\<lambda>i. 0"] by simp

text \<open>The status that \<^verbatim>\<open>checkFrame\<close> returns does not depend on the first byte of the frame.\<close>

lemma checkFrame_is_inspectCHKSUM:
  "checkFrame frameRX sizeFrame = inspectCHKSUM frameRX sizeFrame"
  by (simp add: checkFrame_def Let_def)

text \<open>
  C7. \<^verbatim>\<open>checkFrame\<close> tests the start marker, but the status it returns is the one of
  \<^verbatim>\<open>inspectCHKSUM\<close> alone. The five bytes 0, 3, 0, 1, 4 do not start with the marker 212;
  their last byte is the checksum of the three before it, and \<^verbatim>\<open>checkFrame\<close> returns
  \<^verbatim>\<open>FRAMEGOOD\<close>.
\<close>

theorem checkFrame_without_marker:
  "array_of [0, 3, 0, 1, 4] 0 \<noteq> STARTBYTE \<and>
   checkFrame (array_of [0, 3, 0, 1, 4]) 5 = FRAMEGOOD"
  by (simp add: checkFrame_def inspectCHKSUM_def add_bytes.simps array_of_def ll_consts)

section \<open>The port\<close>

lemma timeMult_val: "timeMult = 3"
  by (simp add: timeMult_def BIT_RATE_def signed_divide_int_def)

lemma PHY_send_ready:
  "port w = PortReady \<Longrightarrow> PHY_send w buf n = (n, w\<lparr>tx_log := tx_log w @ [bytes_of buf n]\<rparr>)"
  by (simp add: PHY_send_def)

lemma store_apply:
  "store buf off bs i = (if off \<le> i \<and> i < off + int (length bs) then bs ! nat (i - off) else buf i)"
  by (simp add: store_def)

lemma PHY_get_one_empty:
  "port w = PortReady \<Longrightarrow> rx_pending w = [] \<Longrightarrow>
   PHY_get w buf off 1 = (0, store buf off [], w\<lparr>rx_pending := [], now := now w + 1003\<rparr>)"
  by (simp add: PHY_get_def Let_def RX_TIME_CONST_def timeMult_val)

lemma PHY_get_one_byte:
  "port w = PortReady \<Longrightarrow> rx_pending w = x # xs \<Longrightarrow>
   PHY_get w buf off 1 = (1, store buf off [x], w\<lparr>rx_pending := xs\<rparr>)"
  by (simp add: PHY_get_def Let_def)

lemma timeUp_cases: "timeUp t w = FALSE \<or> timeUp t w = TRUE"
  by (simp add: timeUp_def)

text \<open>Sequence numbers are not negative, and for these \<^verbatim>\<open>%\<close> is \<open>mod\<close>.\<close>

lemma next_nonneg: "0 \<le> x \<Longrightarrow> next x = (x + 1) mod 16"
  by (simp add: next_def MOD_SEQNUM_def signed_modulo_int_def)

lemma next_range: "0 \<le> x \<Longrightarrow> 0 \<le> next x \<and> next x < 16"
  by (simp add: next_nonneg)

lemma next_neq: "0 \<le> x \<Longrightarrow> x < 16 \<Longrightarrow> next x \<noteq> x"
  by (simp add: next_nonneg) presburger

text \<open>The bytes of an array as a list.\<close>

lemma bytes_of_Cons:
  assumes "0 \<le> m"
  shows "bytes_of f (m + 1) = f 0 # bytes_of (\<lambda>k. f (k + 1)) m"
proof -
  have "nat (m + 1) = Suc (nat m)" using assms by simp
  moreover have "[0..<Suc (nat m)] = 0 # map Suc [0..<nat m]"
    by (simp add: upt_conv_Cons map_Suc_upt del: upt_Suc)
  ultimately show ?thesis
    by (simp add: bytes_of_def comp_def add.commute del: upt_Suc)
qed

lemma length_bytes_of: "length (bytes_of f m) = nat m"
  by (simp add: bytes_of_def)

lemma bytes_of_nth: "0 \<le> k \<Longrightarrow> k < m \<Longrightarrow> bytes_of f m ! nat k = f k"
  by (simp add: bytes_of_def)

lemma bytes_of_cong:
  "(\<And>k. 0 \<le> k \<Longrightarrow> k < m \<Longrightarrow> f k = g k) \<Longrightarrow> bytes_of f m = bytes_of g m"
  by (simp add: bytes_of_def)

lemma frame_bytes:
  assumes "0 \<le> n"
  shows "bytes_of f (n + 4) = f 0 # f 1 # bytes_of (\<lambda>k. f (k + 2)) (n + 2)"
proof -
  have "bytes_of f (n + 3 + 1) = f 0 # bytes_of (\<lambda>k. f (k + 1)) (n + 3)"
    using assms by (intro bytes_of_Cons) simp
  moreover have "bytes_of (\<lambda>k. f (k + 1)) (n + 2 + 1) =
      f 1 # bytes_of (\<lambda>k. f (k + 1 + 1)) (n + 2)"
    using assms bytes_of_Cons [of "n + 2" "\<lambda>k. f (k + 1)"] by simp
  ultimately show ?thesis by (simp add: add.assoc)
qed

lemma received_frame:
  assumes "0 \<le> n" and "0 \<le> k" and "k < n + 4"
  shows "store (store (store buf 0 [f 0]) 1 [f 1]) 2 (bytes_of (\<lambda>k. f (k + 2)) (n + 2)) k = f k"
proof -
  consider "k = 0" | "k = 1" | "2 \<le> k" using assms(2) by linarith
  then show ?thesis
  proof cases
    case 3
    then have "bytes_of (\<lambda>k. f (k + 2)) (n + 2) ! nat (k - 2) = f (k - 2 + 2)"
      using assms by (intro bytes_of_nth) simp_all
    with 3 assms show ?thesis by (simp add: store_apply length_bytes_of)
  qed (use assms in \<open>simp_all add: store_apply length_bytes_of\<close>)
qed

section \<open>What getFrame returns\<close>

text \<open>While no start marker comes in, the first loop of \<^verbatim>\<open>getFrame\<close> runs until the time
  limit has passed, and \<^verbatim>\<open>getFrame\<close> returns 0.\<close>

lemma getFrame_seek_silent:
  "port w = PortReady \<Longrightarrow> STARTBYTE \<notin> set (rx_pending w) \<Longrightarrow>
   \<exists>fr b w'. getFrame_seek buf n timer w = (None, fr, b, w') \<and> timeUp timer w' = TRUE \<and>
     port w' = PortReady \<and> STARTBYTE \<notin> set (rx_pending w') \<and> tx_log w' = tx_log w"
proof (induction buf n timer w rule: getFrame_seek.induct)
  case (1 frameRX bytesRX timer w)
  define got where "got = PHY_get w frameRX 0 1"
  have got_all: "(\<not> fst got < 0) \<and> (fst got < 1 \<or> fst (snd got) 0 \<noteq> STARTBYTE) \<and>
      port (snd (snd got)) = PortReady \<and> STARTBYTE \<notin> set (rx_pending (snd (snd got))) \<and>
      tx_log (snd (snd got)) = tx_log w"
  proof (cases "rx_pending w")
    case Nil
    with "1.prems" show ?thesis by (simp add: got_def PHY_get_one_empty)
  next
    case (Cons x xs)
    with "1.prems" show ?thesis by (auto simp add: got_def PHY_get_one_byte store_apply)
  qed
  then have got_props: "\<not> fst got < 0" "fst got < 1 \<or> fst (snd got) 0 \<noteq> STARTBYTE"
    "port (snd (snd got)) = PortReady" "STARTBYTE \<notin> set (rx_pending (snd (snd got)))"
    "tx_log (snd (snd got)) = tx_log w"
    by blast+
  show ?case
  proof (cases "timeUp timer (snd (snd got)) = FALSE")
    case True
    from "1.IH" [OF got_def refl refl refl got_props(1) _ got_props(3,4)] True got_props(2)
    obtain fr b w' where
      "getFrame_seek (fst (snd got)) (bytesRX + fst got) timer (snd (snd got)) = (None, fr, b, w')"
      "timeUp timer w' = TRUE" "port w' = PortReady" "STARTBYTE \<notin> set (rx_pending w')"
      "tx_log w' = tx_log (snd (snd got))"
      by blast
    with True got_props show ?thesis
      by (subst getFrame_seek.simps) (simp add: Let_def got_def [symmetric])
  next
    case False
    with timeUp_cases [of timer "snd (snd got)"] have "timeUp timer (snd (snd got)) = TRUE"
      by simp
    with False got_props show ?thesis
      by (subst getFrame_seek.simps) (simp add: Let_def got_def [symmetric])
  qed
qed

lemma getFrame_silent:
  assumes "port w = PortReady" and "STARTBYTE \<notin> set (rx_pending w)"
  shows "\<exists>fr w'. getFrame buf maxSize timeLimit s w = (0, fr, s\<lparr>timerRX := timeSet timeLimit w\<rparr>, w') \<and>
     port w' = PortReady \<and> STARTBYTE \<notin> set (rx_pending w') \<and> tx_log w' = tx_log w"
proof -
  from getFrame_seek_silent [OF assms, of buf 0 "timeSet timeLimit w"]
  obtain fr b w' where "getFrame_seek buf 0 (timeSet timeLimit w) w = (None, fr, b, w')"
    "timeUp (timeSet timeLimit w) w' = TRUE" "port w' = PortReady"
    "STARTBYTE \<notin> set (rx_pending w')" "tx_log w' = tx_log w"
    by blast
  then show ?thesis by (simp add: getFrame_def Let_def TRUE_def FALSE_def)
qed

text \<open>When a start marker, a size byte and as many bytes as the size byte says are waiting,
  \<^verbatim>\<open>getFrame\<close> returns them as a frame, if they fit below \<^verbatim>\<open>maxSize\<close>.\<close>

lemma getFrame_whole:
  assumes "port w = PortReady"
    and "rx_pending w = STARTBYTE # sz # body @ rest"
    and "int (length body) = uint sz" and "0 < uint sz"
    and "0 < timeLimit" and "2 + uint sz < maxSize"
  shows "getFrame buf maxSize timeLimit s w =
     (2 + uint sz, store (store (store buf 0 [STARTBYTE]) 1 [sz]) 2 body,
      s\<lparr>timerRX := timeSet timeLimit w\<rparr>, w\<lparr>rx_pending := rest\<rparr>)"
proof -
  let ?t = "timeSet timeLimit w"
  let ?w1 = "w\<lparr>rx_pending := sz # body @ rest\<rparr>"
  let ?b1 = "store buf 0 [STARTBYTE]"
  have seek: "getFrame_seek buf 0 ?t w = (None, ?b1, 1, ?w1)"
    using assms(1,2)
    by (subst getFrame_seek.simps) (simp add: PHY_get_one_byte Let_def store_apply)
  have up: "timeUp ?t ?w1 = FALSE"
    using assms(5) by (simp add: timeUp_def timeSet_def CLOCKS_PER_SEC_def)
  let ?w2 = "w\<lparr>rx_pending := body @ rest\<rparr>"
  let ?b2 = "store ?b1 1 [sz]"
  have get2: "PHY_get ?w1 ?b1 1 1 = (1, ?b2, ?w2)"
    using assms(1) by (simp add: PHY_get_one_byte)
  have "nat (uint sz) = length body"
    by (simp only: assms(3) [symmetric] nat_int)
  then have len: "unat sz = length body" by simp
  have get3: "PHY_get ?w2 ?b2 2 (uint sz) = (uint sz, store ?b2 2 body, w\<lparr>rx_pending := rest\<rparr>)"
    using assms(1,3,4) by (simp add: PHY_get_def Let_def len)
  have sz: "?b2 FRAMENUMBERPOS = sz" by (simp add: store_apply FRAMENUMBERPOS_def)
  show ?thesis
    using up assms(4,6)
    by (simp add: getFrame_def seek Let_def get2 sz get3)
qed

lemma uint_size_byte: "0 \<le> n \<Longrightarrow> n \<le> 253 \<Longrightarrow> uint (word_of_int n + 2 :: byte_t) = n + 2"
  by (simp add: uint_word_ariths uint_word_of_int)

lemma uint_seq_byte: "0 \<le> s \<Longrightarrow> s < 256 \<Longrightarrow> uint (word_of_int s :: byte_t) = s"
  by (simp add: uint_word_of_int)

lemma getFrame_built:
  assumes "port w = PortReady" and "0 \<le> n" and "n \<le> 253"
    and "rx_pending w = bytes_of (snd (buildDataFrame frameTX dataTX n seq)) (n + 4) @ rest"
  shows "\<exists>g. getFrame buf (3 * MAX_BLK) RX_WAIT s w =
       (n + 4, g, s\<lparr>timerRX := timeSet RX_WAIT w\<rparr>, w\<lparr>rx_pending := rest\<rparr>) \<and>
     (\<forall>k. 0 \<le> k \<and> k < n + 4 \<longrightarrow> g k = snd (buildDataFrame frameTX dataTX n seq) k)"
proof -
  let ?f = "snd (buildDataFrame frameTX dataTX n seq)"
  let ?body = "bytes_of (\<lambda>k. ?f (k + 2)) (n + 2)"
  let ?g = "store (store (store buf 0 [STARTBYTE]) 1 [?f 1]) 2 ?body"
  have f0: "?f 0 = STARTBYTE" and f1: "?f 1 = word_of_int n + 2"
    using assms(2) by (simp_all add: buildDataFrame_apply)
  have sz: "uint (?f 1) = n + 2" using assms(2,3) by (simp add: f1 uint_size_byte)
  have pending: "rx_pending w = STARTBYTE # ?f 1 # ?body @ rest"
    using assms(2,4) by (simp add: frame_bytes f0)
  have "getFrame buf (3 * MAX_BLK) RX_WAIT s w =
      (2 + uint (?f 1), ?g, s\<lparr>timerRX := timeSet RX_WAIT w\<rparr>, w\<lparr>rx_pending := rest\<rparr>)"
    using assms(2,3)
    by (intro getFrame_whole [OF assms(1) pending])
       (simp_all add: sz length_bytes_of MAX_BLK_def RX_WAIT_def)
  moreover have "\<forall>k. 0 \<le> k \<and> k < n + 4 \<longrightarrow> ?g k = ?f k"
    using received_frame [OF assms(2), of _ buf ?f] by (simp add: f0)
  ultimately show ?thesis by (auto simp add: sz)
qed

text \<open>
  C10. \<^verbatim>\<open>getFrame\<close> compares the number of bytes with \<^verbatim>\<open>maxSize\<close> after the bytes have
  been stored. In the call of \<^verbatim>\<open>LL_send_LLC\<close>, with \<^verbatim>\<open>maxSize = 2 * ACK_SIZE = 10\<close>, a frame of 14
  bytes comes in (marker, size byte 12, twelve more bytes): \<^verbatim>\<open>getFrame\<close> returns 0, and all
  14 bytes are in the array, at the offsets 0 to 13. Offset 13, where the byte 12 is
  stored, is beyond \<^verbatim>\<open>maxSize\<close>; the array held 0 there before the call.
\<close>

theorem getFrame_stores_past_maxSize:
  "send_LLC_frameAck initial_state 13 = 0 \<and>
   (case getFrame (send_LLC_frameAck initial_state) (2 * ACK_SIZE) (2 * TX_WAIT) initial_state
           \<lparr>port = PortReady,
              rx_pending = [212, 12, 1, 2, 3, 4, 5, 6, 7, 8, 9, 10, 11, 12],
              tx_log = [], now = 0\<rparr> of
      (sizeFrame, frameRX, s, w) \<Rightarrow>
        sizeFrame = 0 \<and> frameRX 13 = 12 \<and>
        bytes_of frameRX 14 = [212, 12, 1, 2, 3, 4, 5, 6, 7, 8, 9, 10, 11, 12] \<and>
        rx_pending w = [])"
  by (simp add: getFrame_def getFrame_seek.simps PHY_get_def store_def timeSet_def timeUp_def
      initial_state_def bytes_of_def ll_consts Let_def upt_rec CLOCKS_PER_SEC_def)

section \<open>Acknowledgement frames\<close>

lemma ack_bytes: "bytes_of (ackFrame_of POSACK 0) ACK_SIZE = [212, 4, 0, 1, 5]"
  by (simp add: bytes_of_def ackFrame_of_def makeCHKSUM_def add_bytes.simps ll_consts Let_def upt_rec)

lemma nak_bytes: "bytes_of (ackFrame_of NEGACK 0) ACK_SIZE = [212, 4, 0, 0, 4]"
  by (simp add: bytes_of_def ackFrame_of_def makeCHKSUM_def add_bytes.simps ll_consts Let_def upt_rec)

lemma sendAck_ready:
  "port w = PortReady \<Longrightarrow>
   sendAck type seqNum s w =
     (SUCCESS,
      (if type = POSACK then s\<lparr>acksSent := acksSent s + 1\<rparr>
       else if type = NEGACK then s\<lparr>naksSent := naksSent s + 1\<rparr> else s),
      w\<lparr>tx_log := tx_log w @ [bytes_of (ackFrame_of type seqNum) ACK_SIZE]\<rparr>)"
  by (simp add: sendAck_def PHY_send_ready Let_def)

lemma sendAck_tx_log:
  "port w = PortReady \<Longrightarrow>
   tx_log (snd (snd (sendAck type seqNum s w))) = tx_log w @ [bytes_of (ackFrame_of type seqNum) ACK_SIZE]"
  by (simp add: sendAck_def PHY_send_ready Let_def)

lemma sendAck_tx_log_not_ready:
  "port w \<noteq> PortReady \<Longrightarrow> tx_log (snd (snd (sendAck type seqNum s w))) = tx_log w"
  by (cases "port w") (simp_all add: sendAck_def PHY_send_def Let_def ll_consts)

lemma pending_ack:
  assumes "tx_log (snd (snd (sendAck POSACK 0 ps pw))) = tx_log pw @ [bs]"
  shows "bs = [212, 4, 0, 1, 5]"
proof (cases "port pw = PortReady")
  case True
  with assms show ?thesis by (simp add: sendAck_tx_log ack_bytes)
next
  case False
  with assms show ?thesis by (simp add: sendAck_tx_log_not_ready)
qed

text \<open>The size byte of a data frame is the number of data bytes plus 2, as long as that
  fits in a byte.\<close>

lemma buildDataFrame_size_field:
  "0 \<le> n \<Longrightarrow> n \<le> 253 \<Longrightarrow>
   uint (snd (buildDataFrame frameTX dataTX n s) FRAMENUMBERPOS) = n + 2"
  by (simp add: buildDataFrame_apply FRAMENUMBERPOS_def uint_size_byte)

text \<open>
  C5. The frame that \<^verbatim>\<open>sendAck(POSACK, 0)\<close> writes to the line is 212, 4, 0, 1, 5: marker, size
  byte, sequence number, status byte, checksum. Its payload is the one status byte, so the
  size byte should be 2 + 1 = 3; it is \<^verbatim>\<open>ACK_SIZE - 1\<close> = 4.
\<close>

theorem sendAck_size_field:
  "tx_log (snd (snd (sendAck POSACK 0 initial_state
      \<lparr>port = PortReady, rx_pending = [], tx_log = [], now = 0\<rparr>))) = [[212, 4, 0, 1, 5]]"
  by (simp add: sendAck_tx_log ack_bytes)

section \<open>Sending\<close>

lemma LL_connect_ready:
  "LL_connect 1 initial_state \<lparr>port = PortReady, rx_pending = [], tx_log = [], now = 0\<rparr> =
     (SUCCESS, initial_state\<lparr>connected := TRUE, lastSeqRX := 31\<rparr>)"
  by (simp add: LL_connect_def PHY_open_def initial_state_def ll_consts signed_divide_int_def)

lemma frame_123:
  "bytes_of (snd (buildDataFrame (\<lambda>i. 0) (array_of [1, 2, 3]) 3 0)) 7 =
     [212, 5, 0, 1, 2, 3, 11]"
  by (simp add: bytes_of_def buildDataFrame_def copy_bytes.simps makeCHKSUM_def
      add_bytes.simps array_of_def ll_consts Let_def upt_rec)

lemma LL_send_LLC_attempt_code:
  "fst (LL_send_LLC_attempt sizeTXframe s w) = None \<or>
   fst (LL_send_LLC_attempt sizeTXframe s w) = Some FAILURE"
  by (simp add: LL_send_LLC_attempt_def Let_def)

lemma LL_send_LLC_loop_code:
  "fst (LL_send_LLC_loop sizeTXframe attempts s w) = None \<or>
   fst (LL_send_LLC_loop sizeTXframe attempts s w) = Some FAILURE"
proof (induction sizeTXframe attempts s w rule: LL_send_LLC_loop.induct)
  case (1 sizeTXframe attempts s w)
  let ?r = "LL_send_LLC_attempt sizeTXframe s w"
  show ?case
  proof (cases "fst ?r = None \<and> fst (snd ?r) = FALSE \<and> attempts + 1 < MAX_TRIES")
    case True
    with "1.IH" [OF refl refl] show ?thesis
      by (subst LL_send_LLC_loop.simps, subst (2) LL_send_LLC_loop.simps) (simp add: Let_def)
  next
    case False
    with LL_send_LLC_attempt_code [of sizeTXframe s w] show ?thesis
      by (subst LL_send_LLC_loop.simps, subst (2) LL_send_LLC_loop.simps) (auto simp add: Let_def)
  qed
qed

text \<open>
  C8, as amended. When connected, \<^verbatim>\<open>LL_send_basic\<close> and \<^verbatim>\<open>LL_send_LLC\<close> let every payload of at
  most \<^verbatim>\<open>MAX_BLK\<close> = 200 bytes pass their size check (the result is not \<^verbatim>\<open>BADUSE\<close>), and reject
  every longer one with \<^verbatim>\<open>BADUSE\<close>, leaving the state and the line as they were.
\<close>

theorem LL_send_size_limit:
  assumes "connected s = TRUE"
  shows "(nTXdata \<le> MAX_BLK \<longrightarrow>
            fst (LL_send_basic dataTX nTXdata s w) \<noteq> BADUSE \<and>
            fst (LL_send_LLC dataTX nTXdata s w) \<noteq> BADUSE) \<and>
         (nTXdata > MAX_BLK \<longrightarrow>
            LL_send_basic dataTX nTXdata s w = (BADUSE, s, w) \<and>
            LL_send_LLC dataTX nTXdata s w = (BADUSE, s, w))"
proof -
  let ?built = "buildDataFrame (send_LLC_frameTX s) dataTX nTXdata (seqNumTX s)"
  let ?s0 = "s\<lparr>send_LLC_frameTX := snd ?built\<rparr>"
  have basic: "nTXdata \<le> MAX_BLK \<Longrightarrow> fst (LL_send_basic dataTX nTXdata s w) \<noteq> BADUSE"
    using assms by (simp add: LL_send_basic_def Let_def ll_consts)
  have llc: "nTXdata \<le> MAX_BLK \<Longrightarrow> fst (LL_send_LLC dataTX nTXdata s w) \<noteq> BADUSE"
    using assms LL_send_LLC_loop_code [of "fst ?built" 0 ?s0 w]
    by (auto simp add: LL_send_LLC_def Let_def ll_consts split: prod.splits option.splits)
  have "nTXdata > MAX_BLK \<Longrightarrow> LL_send_basic dataTX nTXdata s w = (BADUSE, s, w)"
    "nTXdata > MAX_BLK \<Longrightarrow> LL_send_LLC dataTX nTXdata s w = (BADUSE, s, w)"
    using assms by (simp_all add: LL_send_basic_def LL_send_LLC_def TRUE_def FALSE_def)
  with basic llc show ?thesis by blast
qed

theorem LL_send_size_limit_witness:
  "connected (snd (LL_connect 1 initial_state \<lparr>port = PortReady, rx_pending = [], tx_log = [], now = 0\<rparr>)) = TRUE \<and>
   (200 :: int) \<le> MAX_BLK \<and>
   fst (LL_send_basic (array_of (replicate 200 7)) 200
      (snd (LL_connect 1 initial_state \<lparr>port = PortReady, rx_pending = [], tx_log = [], now = 0\<rparr>))
      \<lparr>port = PortReady, rx_pending = [], tx_log = [], now = 0\<rparr>) \<noteq> BADUSE \<and>
   fst (LL_send_LLC (array_of (replicate 200 7)) 200
      (snd (LL_connect 1 initial_state \<lparr>port = PortReady, rx_pending = [], tx_log = [], now = 0\<rparr>))
      \<lparr>port = PortReady, rx_pending = [], tx_log = [], now = 0\<rparr>) \<noteq> BADUSE \<and>
   (201 :: int) > MAX_BLK \<and>
   fst (LL_send_basic (array_of (replicate 201 7)) 201
      (snd (LL_connect 1 initial_state \<lparr>port = PortReady, rx_pending = [], tx_log = [], now = 0\<rparr>))
      \<lparr>port = PortReady, rx_pending = [], tx_log = [], now = 0\<rparr>) = BADUSE \<and>
   fst (LL_send_LLC (array_of (replicate 201 7)) 201
      (snd (LL_connect 1 initial_state \<lparr>port = PortReady, rx_pending = [], tx_log = [], now = 0\<rparr>))
      \<lparr>port = PortReady, rx_pending = [], tx_log = [], now = 0\<rparr>) = BADUSE"
proof -
  let ?w = "\<lparr>port = PortReady, rx_pending = [], tx_log = [], now = 0\<rparr>"
  let ?s = "snd (LL_connect 1 initial_state ?w)"
  have h1: "connected ?s = TRUE" by (simp add: LL_connect_ready)
  have h2: "(200 :: int) \<le> MAX_BLK" and h3: "(201 :: int) > MAX_BLK" by (simp_all add: MAX_BLK_def)
  from LL_send_size_limit [OF h1, of 200 "array_of (replicate 200 7)" ?w]
    LL_send_size_limit [OF h1, of 201 "array_of (replicate 201 7)" ?w] h1 h2 h3
  show ?thesis by simp
qed

text \<open>
  C8, as the claim states it, fails: a payload of 201 bytes, which is no more than 253, is
  rejected with \<^verbatim>\<open>BADUSE\<close> by both send functions of a connected engine.
\<close>

theorem LL_send_size_limit_counterexample:
  "(201 :: int) \<le> 253 \<and>
   connected (snd (LL_connect 1 initial_state \<lparr>port = PortReady, rx_pending = [], tx_log = [], now = 0\<rparr>)) = TRUE \<and>
   fst (LL_send_basic (array_of (replicate 201 0)) 201
      (snd (LL_connect 1 initial_state \<lparr>port = PortReady, rx_pending = [], tx_log = [], now = 0\<rparr>))
      \<lparr>port = PortReady, rx_pending = [], tx_log = [], now = 0\<rparr>) = BADUSE \<and>
   fst (LL_send_LLC (array_of (replicate 201 0)) 201
      (snd (LL_connect 1 initial_state \<lparr>port = PortReady, rx_pending = [], tx_log = [], now = 0\<rparr>))
      \<lparr>port = PortReady, rx_pending = [], tx_log = [], now = 0\<rparr>) = BADUSE"
  by (simp add: LL_send_basic_def LL_send_LLC_def LL_connect_def PHY_open_def initial_state_def ll_consts)

lemma getFrame_ack:
  assumes "port w = PortReady" and "rx_pending w = [212, 4, 0, 1, 5]"
  shows "getFrame buf (2 * ACK_SIZE) (2 * TX_WAIT) s w =
     (5, store (store (store buf 0 [212]) 1 [4]) 2 [0, 1, 5],
      s\<lparr>timerRX := now w + 8000\<rparr>, w\<lparr>rx_pending := [], now := now w + 1012\<rparr>)"
  using assms
  by (simp add: getFrame_def getFrame_seek.simps PHY_get_def timeSet_def timeUp_def
      ll_consts Let_def CLOCKS_PER_SEC_def RX_TIME_CONST_def timeMult_val store_apply)

lemma checkFrame_ack:
  "checkFrame (store (store (store buf 0 [212]) 1 [4]) 2 [0, 1, 5]) 5 = FRAMEGOOD"
  by (simp add: checkFrame_def inspectCHKSUM_def add_bytes.simps store_apply ll_consts)

lemma LL_send_LLC_attempt_ack:
  assumes "port w = PortReady" and "rx_pending w = [212, 4, 0, 1, 5]" and "seqNumTX s = 0"
  shows "LL_send_LLC_attempt sizeTXframe s w =
     (None, TRUE,
      s\<lparr>framesSent := framesSent s + 1, timerRX := now w + 8000,
        send_LLC_frameAck := store (store (store (send_LLC_frameAck s) 0 [212]) 1 [4]) 2 [0, 1, 5],
        goodFrames := goodFrames s + 1, acksRX := acksRX s + 1\<rparr>,
      w\<lparr>tx_log := tx_log w @ [bytes_of (send_LLC_frameTX s) sizeTXframe],
        rx_pending := [], now := now w + 1012\<rparr>)"
  using assms
  by (simp add: LL_send_LLC_attempt_def PHY_send_ready getFrame_ack checkFrame_ack Let_def)
     (simp add: store_apply ll_consts)

text \<open>
  C1. The engine is connected, its transmit sequence number is 0, the port works, and the
  bytes waiting on the line are the block that a peer's \<^verbatim>\<open>sendAck(POSACK, 0)\<close> wrote. Then
  \<^verbatim>\<open>LL_send_LLC\<close> of a payload of at most \<^verbatim>\<open>MAX_BLK\<close> bytes sends its frame once, finds the
  response good and positive, returns \<^verbatim>\<open>SUCCESS\<close>, and the transmit sequence number is 1.
\<close>

theorem LL_send_LLC_clean_exchange:
  assumes "connected s = TRUE" and "seqNumTX s = 0"
    and "0 \<le> nTXdata" and "nTXdata \<le> MAX_BLK" and "port w = PortReady"
    and "tx_log (snd (snd (sendAck POSACK 0 peer peer_w))) = tx_log peer_w @ [rx_pending w]"
  shows "case LL_send_LLC dataTX nTXdata s w of
     (code, s', w') \<Rightarrow>
       code = SUCCESS \<and> seqNumTX s' = 1 \<and>
       framesSent s' = framesSent s + 1 \<and> goodFrames s' = goodFrames s + 1 \<and>
       acksRX s' = acksRX s + 1 \<and> timeouts s' = timeouts s \<and> rx_pending w' = [] \<and>
       tx_log w' = tx_log w @
         [bytes_of (snd (buildDataFrame (send_LLC_frameTX s) dataTX nTXdata 0)) (nTXdata + 4)]"
proof -
  have pending: "rx_pending w = [212, 4, 0, 1, 5]"
    using assms(6) by (rule pending_ack)
  let ?built = "buildDataFrame (send_LLC_frameTX s) dataTX nTXdata (seqNumTX s)"
  let ?s0 = "s\<lparr>send_LLC_frameTX := snd ?built\<rparr>"
  have "seqNumTX ?s0 = 0" using assms(2) by simp
  note att = LL_send_LLC_attempt_ack [OF assms(5) pending this, of "fst ?built"]
  have "LL_send_LLC_loop (fst ?built) 0 ?s0 w = LL_send_LLC_attempt (fst ?built) ?s0 w"
    by (subst LL_send_LLC_loop.simps) (simp add: att Let_def TRUE_def FALSE_def)
  with att assms(1,2,4) show ?thesis
    by (simp add: LL_send_LLC_def Let_def buildDataFrame_size TRUE_def FALSE_def
        next_nonneg SUCCESS_def)
qed

theorem LL_send_LLC_clean_exchange_witness:
  "connected (snd (LL_connect 1 initial_state \<lparr>port = PortReady, rx_pending = [], tx_log = [], now = 0\<rparr>)) = TRUE \<and>
   seqNumTX (snd (LL_connect 1 initial_state \<lparr>port = PortReady, rx_pending = [], tx_log = [], now = 0\<rparr>)) = 0 \<and>
   (0 :: int) \<le> 3 \<and> 3 \<le> MAX_BLK \<and>
   tx_log (snd (snd (sendAck POSACK 0 initial_state \<lparr>port = PortReady, rx_pending = [], tx_log = [], now = 0\<rparr>))) =
     [[212, 4, 0, 1, 5]] \<and>
   (case LL_send_LLC (array_of [1, 2, 3]) 3
      (snd (LL_connect 1 initial_state \<lparr>port = PortReady, rx_pending = [], tx_log = [], now = 0\<rparr>))
      \<lparr>port = PortReady, rx_pending = [212, 4, 0, 1, 5], tx_log = [], now = 0\<rparr> of
     (code, s', w') \<Rightarrow> code = SUCCESS \<and> seqNumTX s' = 1 \<and> framesSent s' = 1 \<and> acksRX s' = 1 \<and>
        tx_log w' = [[212, 5, 0, 1, 2, 3, 11]])"
proof -
  let ?line = "\<lparr>port = PortReady, rx_pending = [], tx_log = [], now = 0\<rparr>"
  let ?w = "\<lparr>port = PortReady, rx_pending = [212, 4, 0, 1, 5], tx_log = [], now = 0\<rparr>"
  let ?s = "snd (LL_connect 1 initial_state ?line)"
  have s: "?s = initial_state\<lparr>connected := TRUE, lastSeqRX := 31\<rparr>"
    by (simp add: LL_connect_ready)
  have h1: "connected ?s = TRUE" and h2: "seqNumTX ?s = 0"
    by (simp_all add: s) (simp add: initial_state_def)
  have h3: "(0 :: int) \<le> 3" and h4: "3 \<le> MAX_BLK" by (simp_all add: MAX_BLK_def)
  have h5: "port ?w = PortReady" by simp
  have ack: "tx_log (snd (snd (sendAck POSACK 0 initial_state ?line))) = [[212, 4, 0, 1, 5]]"
    by (simp add: sendAck_tx_log ack_bytes)
  then have h6: "tx_log (snd (snd (sendAck POSACK 0 initial_state ?line))) =
      tx_log ?line @ [rx_pending ?w]"
    by simp
  have frame: "bytes_of (snd (buildDataFrame (send_LLC_frameTX ?s) (array_of [1, 2, 3]) 3 0)) 7 =
      [212, 5, 0, 1, 2, 3, 11]"
    by (simp add: s frame_123) (simp add: initial_state_def frame_123)
  from LL_send_LLC_clean_exchange [OF h1 h2 h3 h4 h5 h6, of "array_of [1, 2, 3]"] h1 h2 h4 ack frame
  show ?thesis
    by (simp add: split_beta s) (simp add: initial_state_def)
qed

text \<open>Whatever makes \<^verbatim>\<open>getFrame\<close> return 0, the pass through the loop in which it does ends
  without success and without \<^verbatim>\<open>FAILURE\<close>, so the frame is sent again while tries are left.\<close>

lemma LL_send_LLC_attempt_timeout:
  assumes "port w = PortReady"
    and "fst (getFrame (send_LLC_frameAck s) (2 * ACK_SIZE) (2 * TX_WAIT)
           (s\<lparr>framesSent := framesSent s + 1\<rparr>)
           (w\<lparr>tx_log := tx_log w @ [bytes_of (send_LLC_frameTX s) sizeTXframe]\<rparr>)) = 0"
  shows "case LL_send_LLC_attempt sizeTXframe s w of
     (code, success, s', w') \<Rightarrow> code = None \<and> success = FALSE"
  using assms
  by (simp add: LL_send_LLC_attempt_def PHY_send_ready Let_def split_beta)

lemma LL_send_LLC_attempt_silent:
  assumes "port w = PortReady" and "STARTBYTE \<notin> set (rx_pending w)"
  shows "\<exists>s' w'. LL_send_LLC_attempt sizeTXframe s w = (None, FALSE, s', w') \<and>
     seqNumTX s' = seqNumTX s \<and> send_LLC_frameTX s' = send_LLC_frameTX s \<and>
     framesSent s' = framesSent s + 1 \<and> timeouts s' = timeouts s + 1 \<and>
     port w' = PortReady \<and> STARTBYTE \<notin> set (rx_pending w') \<and>
     tx_log w' = tx_log w @ [bytes_of (send_LLC_frameTX s) sizeTXframe]"
proof -
  let ?w1 = "w\<lparr>tx_log := tx_log w @ [bytes_of (send_LLC_frameTX s) sizeTXframe]\<rparr>"
  let ?s1 = "s\<lparr>framesSent := framesSent s + 1\<rparr>"
  have "port ?w1 = PortReady" "STARTBYTE \<notin> set (rx_pending ?w1)"
    using assms by simp_all
  from getFrame_silent [OF this, of "send_LLC_frameAck ?s1" "2 * ACK_SIZE" "2 * TX_WAIT" ?s1]
  obtain fr w' where
    "getFrame (send_LLC_frameAck ?s1) (2 * ACK_SIZE) (2 * TX_WAIT) ?s1 ?w1 =
       (0, fr, ?s1\<lparr>timerRX := timeSet (2 * TX_WAIT) ?w1\<rparr>, w')"
    "port w' = PortReady" "STARTBYTE \<notin> set (rx_pending w')" "tx_log w' = tx_log ?w1"
    by blast
  then show ?thesis
    using assms(1) by (simp add: LL_send_LLC_attempt_def PHY_send_ready Let_def)
qed

lemma LL_send_LLC_loop_silent:
  "attempts < MAX_TRIES \<Longrightarrow> port w = PortReady \<Longrightarrow> STARTBYTE \<notin> set (rx_pending w) \<Longrightarrow>
   \<exists>s' w'. LL_send_LLC_loop sizeTXframe attempts s w = (None, FALSE, s', w') \<and>
     seqNumTX s' = seqNumTX s \<and>
     framesSent s' = framesSent s + (MAX_TRIES - attempts) \<and>
     timeouts s' = timeouts s + (MAX_TRIES - attempts) \<and>
     tx_log w' = tx_log w @
       replicate (nat (MAX_TRIES - attempts)) (bytes_of (send_LLC_frameTX s) sizeTXframe)"
proof (induction sizeTXframe attempts s w rule: LL_send_LLC_loop.induct)
  case (1 sizeTXframe attempts s w)
  from LL_send_LLC_attempt_silent [OF "1.prems"(2,3), of sizeTXframe s]
  obtain s1 w1 where att: "LL_send_LLC_attempt sizeTXframe s w = (None, FALSE, s1, w1)"
    and s1: "seqNumTX s1 = seqNumTX s" "send_LLC_frameTX s1 = send_LLC_frameTX s"
      "framesSent s1 = framesSent s + 1" "timeouts s1 = timeouts s + 1"
    and w1: "port w1 = PortReady" "STARTBYTE \<notin> set (rx_pending w1)"
      "tx_log w1 = tx_log w @ [bytes_of (send_LLC_frameTX s) sizeTXframe]"
    by blast
  show ?case
  proof (cases "attempts + 1 < MAX_TRIES")
    case True
    from "1.IH" [OF refl refl _ True] att True w1
    obtain s' w' where rec: "LL_send_LLC_loop sizeTXframe (attempts + 1) s1 w1 = (None, FALSE, s', w')"
      "seqNumTX s' = seqNumTX s1"
      "framesSent s' = framesSent s1 + (MAX_TRIES - (attempts + 1))"
      "timeouts s' = timeouts s1 + (MAX_TRIES - (attempts + 1))"
      "tx_log w' = tx_log w1 @
         replicate (nat (MAX_TRIES - (attempts + 1))) (bytes_of (send_LLC_frameTX s1) sizeTXframe)"
      by auto
    have "nat (MAX_TRIES - attempts) = Suc (nat (MAX_TRIES - (attempts + 1)))"
      using True by simp
    with rec att True s1 w1 show ?thesis
      by (subst LL_send_LLC_loop.simps) (simp add: Let_def replicate_append_same)
  next
    case False
    with "1.prems"(1) have "MAX_TRIES - attempts = 1" by simp
    with att False s1 w1 show ?thesis
      by (subst LL_send_LLC_loop.simps) (simp add: Let_def)
  qed
qed

text \<open>
  C3. The engine is connected, the port works, and every wait for a response runs into
  its time limit because no start marker ever comes in. Then \<^verbatim>\<open>LL_send_LLC\<close> of a payload of
  at most \<^verbatim>\<open>MAX_BLK\<close> bytes writes its frame to the line exactly \<^verbatim>\<open>MAX_TRIES\<close> = 5 times, counts
  5 timeouts, returns \<^verbatim>\<open>GIVEUP\<close>, and leaves the transmit sequence number as it was.
\<close>

theorem LL_send_LLC_gives_up_after_MAX_TRIES:
  assumes "connected s = TRUE" and "0 \<le> nTXdata" and "nTXdata \<le> MAX_BLK"
    and "port w = PortReady" and "STARTBYTE \<notin> set (rx_pending w)"
  shows "case LL_send_LLC dataTX nTXdata s w of
     (code, s', w') \<Rightarrow>
       code = GIVEUP \<and> seqNumTX s' = seqNumTX s \<and>
       framesSent s' = framesSent s + MAX_TRIES \<and> timeouts s' = timeouts s + MAX_TRIES \<and>
       tx_log w' = tx_log w @ replicate (nat MAX_TRIES)
         (bytes_of (snd (buildDataFrame (send_LLC_frameTX s) dataTX nTXdata (seqNumTX s)))
            (nTXdata + 4))"
proof -
  let ?built = "buildDataFrame (send_LLC_frameTX s) dataTX nTXdata (seqNumTX s)"
  let ?s0 = "s\<lparr>send_LLC_frameTX := snd ?built\<rparr>"
  have "(0 :: int) < MAX_TRIES" by (simp add: MAX_TRIES_def)
  from LL_send_LLC_loop_silent [OF this assms(4,5), of "fst ?built" ?s0]
  obtain s' w' where "LL_send_LLC_loop (fst ?built) 0 ?s0 w = (None, FALSE, s', w')"
    "seqNumTX s' = seqNumTX ?s0" "framesSent s' = framesSent ?s0 + (MAX_TRIES - 0)"
    "timeouts s' = timeouts ?s0 + (MAX_TRIES - 0)"
    "tx_log w' = tx_log w @
       replicate (nat (MAX_TRIES - 0)) (bytes_of (send_LLC_frameTX ?s0) (fst ?built))"
    by blast
  with assms(1,3) show ?thesis
    by (simp add: LL_send_LLC_def Let_def buildDataFrame_size TRUE_def FALSE_def)
qed

theorem LL_send_LLC_gives_up_after_MAX_TRIES_witness:
  "connected (snd (LL_connect 1 initial_state \<lparr>port = PortReady, rx_pending = [], tx_log = [], now = 0\<rparr>)) = TRUE \<and>
   (0 :: int) \<le> 3 \<and> 3 \<le> MAX_BLK \<and>
   STARTBYTE \<notin> set (rx_pending \<lparr>port = PortReady, rx_pending = [], tx_log = [], now = 0\<rparr>) \<and>
   (case LL_send_LLC (array_of [1, 2, 3]) 3
      (snd (LL_connect 1 initial_state \<lparr>port = PortReady, rx_pending = [], tx_log = [], now = 0\<rparr>))
      \<lparr>port = PortReady, rx_pending = [], tx_log = [], now = 0\<rparr> of
     (code, s', w') \<Rightarrow> code = GIVEUP \<and> seqNumTX s' = 0 \<and> framesSent s' = 5 \<and> timeouts s' = 5 \<and>
        tx_log w' = replicate 5 [212, 5, 0, 1, 2, 3, 11])"
proof -
  let ?w = "\<lparr>port = PortReady, rx_pending = [], tx_log = [], now = 0\<rparr>"
  let ?s = "snd (LL_connect 1 initial_state ?w)"
  have s: "?s = initial_state\<lparr>connected := TRUE, lastSeqRX := 31\<rparr>"
    by (simp add: LL_connect_ready)
  have h1: "connected ?s = TRUE" by (simp add: s)
  have h2: "(0 :: int) \<le> 3" and h3: "3 \<le> MAX_BLK" by (simp_all add: MAX_BLK_def)
  have h4: "port ?w = PortReady" and h5: "STARTBYTE \<notin> set (rx_pending ?w)" by simp_all
  have fields: "seqNumTX ?s = 0" "framesSent ?s = 0" "timeouts ?s = 0"
    "send_LLC_frameTX ?s = (\<lambda>i. 0)"
    by (simp_all add: s) (simp_all add: initial_state_def)
  from LL_send_LLC_gives_up_after_MAX_TRIES [OF h1 h2 h3 h4 h5, of "array_of [1, 2, 3]"] h1 h3 h5
  show ?thesis
    by (simp add: split_beta fields frame_123 MAX_TRIES_def)
qed

section \<open>Receiving\<close>

lemma checkFrame_received:
  assumes "0 \<le> n"
    and "\<forall>k. 0 \<le> k \<and> k < n + 4 \<longrightarrow> g k = snd (buildDataFrame frameTX dataTX n seq) k"
  shows "checkFrame g (n + 4) = FRAMEGOOD"
proof -
  have "inspectCHKSUM g (n + 4) = FRAMEGOOD"
    by (rule inspectCHKSUM_built
          [where d = dataTX and fs = "word_of_int n + 2" and sq = "word_of_int seq"])
       (use assms in \<open>simp_all add: buildDataFrame_apply\<close>)
  then show ?thesis by (simp add: checkFrame_def Let_def)
qed

lemma processFrame_received:
  assumes "0 \<le> n" and "n \<le> maxData" and "0 \<le> seq" and "seq < 256"
    and "\<forall>k. 0 \<le> k \<and> k < n + 4 \<longrightarrow> g k = snd (buildDataFrame frameTX dataTX n seq) k"
  shows "\<exists>d'. processFrame g (n + 4) dataRX maxData = (n, d', seq) \<and>
     bytes_of d' n = bytes_of dataTX n"
proof -
  let ?d = "copy_bytes dataRX 0 g HEADERSIZE 0 n"
  have "g 2 = word_of_int seq" using assms(1,5) by (simp add: buildDataFrame_apply)
  then have "uint (g SEQNUMPOS) = seq"
    using assms(3,4) by (simp add: SEQNUMPOS_def uint_seq_byte)
  then have "processFrame g (n + 4) dataRX maxData = (n, ?d, seq)"
    using assms(2) by (simp add: processFrame_def Let_def HEADERSIZE_def TRAILERSIZE_def)
  moreover have "bytes_of ?d n = bytes_of dataTX n"
  proof (rule bytes_of_cong)
    fix k :: int assume "0 \<le> k" "k < n"
    with assms(1,5) show "?d k = dataTX k"
      by (simp add: copy_bytes_apply HEADERSIZE_def buildDataFrame_apply)
  qed
  ultimately show ?thesis by blast
qed

lemma LL_receive_LLC_attempt_frame:
  assumes "port w = PortReady" and "0 \<le> n" and "n \<le> 253" and "n \<le> maxData"
    and "0 \<le> seq" and "seq < 256"
    and "rx_pending w = bytes_of (snd (buildDataFrame frameTX dataTX n seq)) (n + 4) @ rest"
  shows "\<exists>d' s' w'.
     LL_receive_LLC_attempt expected maxData locals s w =
       (None, (if seq = expected then TRUE else FALSE), (d', n, seq), s', w') \<and>
     bytes_of d' n = bytes_of dataTX n \<and>
     lastSeqRX s' = (if seq = expected then seq else lastSeqRX s) \<and>
     connected s' = connected s \<and>
     acksSent s' = (if seq = expected then acksSent s + 1 else acksSent s) \<and>
     naksSent s' = (if seq = expected then naksSent s else naksSent s + 1) \<and>
     port w' = PortReady \<and> rx_pending w' = rest \<and>
     tx_log w' = tx_log w @
       [bytes_of (ackFrame_of (if seq = expected then POSACK else NEGACK) seq) ACK_SIZE]"
proof -
  from getFrame_built [OF assms(1,2,3,7), of "receive_LLC_frameRX s" s]
  obtain g where got: "getFrame (receive_LLC_frameRX s) (3 * MAX_BLK) RX_WAIT s w =
       (n + 4, g, s\<lparr>timerRX := timeSet RX_WAIT w\<rparr>, w\<lparr>rx_pending := rest\<rparr>)"
    and g: "\<forall>k. 0 \<le> k \<and> k < n + 4 \<longrightarrow> g k = snd (buildDataFrame frameTX dataTX n seq) k"
    by blast
  have good: "checkFrame g (n + 4) = FRAMEGOOD"
    using assms(2) g by (rule checkFrame_received)
  from processFrame_received [OF assms(2,4,5,6) g, of "fst locals"]
  obtain d' where proc: "processFrame g (n + 4) (fst locals) maxData = (n, d', seq)"
    and d': "bytes_of d' n = bytes_of dataTX n"
    by blast
  have ready: "port (w\<lparr>rx_pending := rest\<rparr>) = PortReady" using assms(1) by simp
  show ?thesis
    using assms(1,2) d'
    by (simp add: LL_receive_LLC_attempt_def got good proc Let_def sendAck_ready [OF ready])
       (simp add: ll_consts)
qed

lemma LL_receive_LLC_attempt_silent:
  assumes "port w = PortReady" and "STARTBYTE \<notin> set (rx_pending w)"
  shows "\<exists>s' w'. LL_receive_LLC_attempt expected maxData locals s w = (None, FALSE, locals, s', w') \<and>
     lastSeqRX s' = lastSeqRX s \<and> acksSent s' = acksSent s \<and> naksSent s' = naksSent s \<and>
     port w' = PortReady \<and> STARTBYTE \<notin> set (rx_pending w') \<and> tx_log w' = tx_log w"
proof -
  from getFrame_silent [OF assms, of "receive_LLC_frameRX s" "3 * MAX_BLK" RX_WAIT s]
  obtain fr w' where
    "getFrame (receive_LLC_frameRX s) (3 * MAX_BLK) RX_WAIT s w =
       (0, fr, s\<lparr>timerRX := timeSet RX_WAIT w\<rparr>, w')"
    "port w' = PortReady" "STARTBYTE \<notin> set (rx_pending w')" "tx_log w' = tx_log w"
    by blast
  then show ?thesis
    by (simp add: LL_receive_LLC_attempt_def Let_def)
qed

lemma LL_receive_LLC_loop_silent:
  "port w = PortReady \<Longrightarrow> STARTBYTE \<notin> set (rx_pending w) \<Longrightarrow>
   \<exists>s' w'. LL_receive_LLC_loop expected maxData attempts locals s w = (None, FALSE, locals, s', w') \<and>
     lastSeqRX s' = lastSeqRX s \<and> acksSent s' = acksSent s \<and> naksSent s' = naksSent s \<and>
     tx_log w' = tx_log w"
proof (induction expected maxData attempts locals s w rule: LL_receive_LLC_loop.induct)
  case (1 expected maxData attempts locals s w)
  from LL_receive_LLC_attempt_silent [OF "1.prems", of expected maxData locals s]
  obtain s1 w1 where att: "LL_receive_LLC_attempt expected maxData locals s w = (None, FALSE, locals, s1, w1)"
    and s1: "lastSeqRX s1 = lastSeqRX s" "acksSent s1 = acksSent s" "naksSent s1 = naksSent s"
    and w1: "port w1 = PortReady" "STARTBYTE \<notin> set (rx_pending w1)" "tx_log w1 = tx_log w"
    by blast
  show ?case
  proof (cases "attempts + 1 < MAX_TRIES")
    case True
    from "1.IH" [OF refl refl] att True w1
    obtain s' w' where
      "LL_receive_LLC_loop expected maxData (attempts + 1) locals s1 w1 = (None, FALSE, locals, s', w')"
      "lastSeqRX s' = lastSeqRX s1" "acksSent s' = acksSent s1" "naksSent s' = naksSent s1"
      "tx_log w' = tx_log w1"
      by auto
    with att True s1 w1 show ?thesis
      by (subst LL_receive_LLC_loop.simps) (simp add: Let_def)
  next
    case False
    with att s1 w1 show ?thesis
      by (subst LL_receive_LLC_loop.simps) (simp add: Let_def)
  qed
qed

text \<open>
  C4. A well-formed data frame with the expected sequence number comes in twice, and
  nothing after it. The first \<^verbatim>\<open>LL_receive_LLC\<close> returns the size of its payload, with the
  payload in the caller's array, answers with a positive acknowledgement and makes the
  frame's number the last accepted one. For the second \<^verbatim>\<open>LL_receive_LLC\<close> the same frame has
  the last accepted number: it is answered with a negative acknowledgement, the loop goes
  on, and the call ends with \<^verbatim>\<open>GIVEUP\<close>. The payload is handed to the caller once.
\<close>

theorem LL_receive_LLC_duplicate_suppression:
  assumes "connected s = TRUE" and "port w = PortReady"
    and "0 \<le> n" and "n \<le> 253" and "n \<le> maxData"
    and "seq = next (lastSeqRX s)"
    and "frame = bytes_of (snd (buildDataFrame frameTX dataTX n seq)) (n + 4)"
    and "rx_pending w = frame @ frame"
    and "0 \<le> lastSeqRX s"
  shows "case LL_receive_LLC dataRX maxData s w of
     (n1, data1, s1, w1) \<Rightarrow>
       n1 = n \<and> bytes_of data1 n = bytes_of dataTX n \<and> lastSeqRX s1 = seq \<and>
       tx_log w1 = tx_log w @ [bytes_of (ackFrame_of POSACK seq) ACK_SIZE] \<and>
       (case LL_receive_LLC dataRX' maxData s1 w1 of
          (n2, data2, s2, w2) \<Rightarrow>
            n2 = GIVEUP \<and> lastSeqRX s2 = seq \<and>
            acksSent s2 = acksSent s1 \<and> naksSent s2 = naksSent s1 + 1 \<and>
            tx_log w2 = tx_log w1 @ [bytes_of (ackFrame_of NEGACK seq) ACK_SIZE])"
proof -
  have range: "0 \<le> seq" "seq < 16" "seq < 256"
    using next_range [OF assms(9)] assms(6) by simp_all
  have pending: "rx_pending w =
      bytes_of (snd (buildDataFrame frameTX dataTX n seq)) (n + 4) @ frame"
    using assms(7,8) by simp
  \<comment> \<open>first call: the frame carries the expected number\<close>
  from LL_receive_LLC_attempt_frame
    [OF assms(2,3,4,5) range(1,3) pending, of seq "(dataRX, 0, 0)" s]
  obtain d1 s1 w1 where
    att1: "LL_receive_LLC_attempt seq maxData (dataRX, 0, 0) s w = (None, TRUE, (d1, n, seq), s1, w1)"
    and d1: "bytes_of d1 n = bytes_of dataTX n"
    and s1: "lastSeqRX s1 = seq" "connected s1 = connected s"
    and w1: "port w1 = PortReady" "rx_pending w1 = frame"
      "tx_log w1 = tx_log w @ [bytes_of (ackFrame_of POSACK seq) ACK_SIZE]"
    by auto
  have loop1: "LL_receive_LLC_loop seq maxData 0 (dataRX, 0, 0) s w = (None, TRUE, (d1, n, seq), s1, w1)"
    by (subst LL_receive_LLC_loop.simps) (simp add: att1 Let_def TRUE_def FALSE_def)
  have call1: "LL_receive_LLC dataRX maxData s w = (n, d1, s1, w1)"
    using assms(1)
    by (simp add: LL_receive_LLC_def Let_def assms(6) [symmetric] loop1)
       (simp add: TRUE_def FALSE_def)
  \<comment> \<open>second call: the same frame is a duplicate\<close>
  have neq: "seq \<noteq> next seq" using next_neq [OF range(1,2)] by simp
  have pending2: "rx_pending w1 =
      bytes_of (snd (buildDataFrame frameTX dataTX n seq)) (n + 4) @ []"
    using w1(2) assms(7) by simp
  from LL_receive_LLC_attempt_frame
    [OF w1(1) assms(3,4,5) range(1,3) pending2, of "next seq" "(dataRX', 0, 0)" s1] neq s1
  obtain d2 s2 w2 where
    att2: "LL_receive_LLC_attempt (next seq) maxData (dataRX', 0, 0) s1 w1 =
        (None, FALSE, (d2, n, seq), s2, w2)"
    and s2: "lastSeqRX s2 = seq" "acksSent s2 = acksSent s1" "naksSent s2 = naksSent s1 + 1"
    and w2: "port w2 = PortReady" "rx_pending w2 = []"
      "tx_log w2 = tx_log w1 @ [bytes_of (ackFrame_of NEGACK seq) ACK_SIZE]"
    by auto
  have "STARTBYTE \<notin> set (rx_pending w2)" using w2(2) by simp
  from LL_receive_LLC_loop_silent [OF w2(1) this, of "next seq" maxData 1 "(d2, n, seq)" s2]
  obtain s3 w3 where
    rest: "LL_receive_LLC_loop (next seq) maxData 1 (d2, n, seq) s2 w2 =
        (None, FALSE, (d2, n, seq), s3, w3)"
    and s3: "lastSeqRX s3 = lastSeqRX s2" "acksSent s3 = acksSent s2" "naksSent s3 = naksSent s2"
    and w3: "tx_log w3 = tx_log w2"
    by blast
  have loop2: "LL_receive_LLC_loop (next seq) maxData 0 (dataRX', 0, 0) s1 w1 =
      (None, FALSE, (d2, n, seq), s3, w3)"
    by (subst LL_receive_LLC_loop.simps) (simp add: att2 rest Let_def MAX_TRIES_def)
  have call2: "LL_receive_LLC dataRX' maxData s1 w1 = (GIVEUP, d2, s3, w3)"
    using assms(1) s1
    by (simp add: LL_receive_LLC_def Let_def loop2) (simp add: TRUE_def FALSE_def)
  show ?thesis
    using d1 s1 w1 s2 w2 s3 w3 by (simp add: call1 call2)
qed

theorem LL_receive_LLC_duplicate_suppression_witness:
  "connected (snd (LL_connect 1 initial_state \<lparr>port = PortReady, rx_pending = [], tx_log = [], now = 0\<rparr>)) = TRUE \<and>
   (0 :: int) \<le> 3 \<and> (3 :: int) \<le> 253 \<and> (3 :: int) \<le> 200 \<and>
   0 \<le> lastSeqRX (snd (LL_connect 1 initial_state \<lparr>port = PortReady, rx_pending = [], tx_log = [], now = 0\<rparr>)) \<and>
   next (lastSeqRX (snd (LL_connect 1 initial_state \<lparr>port = PortReady, rx_pending = [], tx_log = [], now = 0\<rparr>))) = 0 \<and>
   bytes_of (snd (buildDataFrame (\<lambda>i. 0) (array_of [1, 2, 3]) 3 0)) (3 + 4) = [212, 5, 0, 1, 2, 3, 11] \<and>
   (case LL_receive_LLC (\<lambda>i. 0) 200
      (snd (LL_connect 1 initial_state \<lparr>port = PortReady, rx_pending = [], tx_log = [], now = 0\<rparr>))
      \<lparr>port = PortReady,
        rx_pending = [212, 5, 0, 1, 2, 3, 11] @ [212, 5, 0, 1, 2, 3, 11], tx_log = [], now = 0\<rparr> of
     (n1, data1, s1, w1) \<Rightarrow>
       n1 = 3 \<and> bytes_of data1 3 = [1, 2, 3] \<and> lastSeqRX s1 = 0 \<and>
       tx_log w1 = [[212, 4, 0, 1, 5]] \<and>
       (case LL_receive_LLC (\<lambda>i. 0) 200 s1 w1 of
          (n2, data2, s2, w2) \<Rightarrow>
            n2 = GIVEUP \<and> lastSeqRX s2 = 0 \<and> naksSent s2 = naksSent s1 + 1 \<and>
            tx_log w2 = [[212, 4, 0, 1, 5], [212, 4, 0, 0, 4]]))"
proof -
  let ?line = "\<lparr>port = PortReady, rx_pending = [], tx_log = [], now = 0\<rparr>"
  let ?w = "\<lparr>port = PortReady,
        rx_pending = [212, 5, 0, 1, 2, 3, 11] @ [212, 5, 0, 1, 2, 3, 11], tx_log = [], now = 0\<rparr>"
  let ?s = "snd (LL_connect 1 initial_state ?line)"
  have s: "?s = initial_state\<lparr>connected := TRUE, lastSeqRX := 31\<rparr>"
    by (simp add: LL_connect_ready)
  have h1: "connected ?s = TRUE" by (simp add: s)
  have h2: "port ?w = PortReady" by simp
  have h3: "(0 :: int) \<le> 3" and h4: "(3 :: int) \<le> 253" and h5: "(3 :: int) \<le> 200" by simp_all
  have h9: "0 \<le> lastSeqRX ?s" by (simp add: s)
  have h6: "0 = next (lastSeqRX ?s)" by (simp add: s next_nonneg)
  have h7: "[212, 5, 0, 1, 2, 3, 11] =
      bytes_of (snd (buildDataFrame (\<lambda>i. 0) (array_of [1, 2, 3]) 3 0)) (3 + 4)"
    by (simp add: frame_123)
  have h8: "rx_pending ?w = [212, 5, 0, 1, 2, 3, 11] @ [212, 5, 0, 1, 2, 3, 11]" by simp
  have payload: "bytes_of (array_of [1, 2, 3]) 3 = [1, 2, 3]"
    by (simp add: bytes_of_def array_of_def upt_rec)
  from LL_receive_LLC_duplicate_suppression [OF h1 h2 h3 h4 h5 h6 h7 h8 h9, of "\<lambda>i. 0" "\<lambda>i. 0"]
    h1 h6 [symmetric] h9 frame_123
  show ?thesis
    by (simp add: split_beta payload ack_bytes nak_bytes)
qed

end
